theory Spec2Isabelle
  imports Complex_Main
begin

section \<open>Shared values\<close>

text \<open>
  The three seeding scripts (\<^verbatim>\<open>backend/data/seed_sqlite.py\<close>, \<^verbatim>\<open>seed_sqlite.py\<close> and
  \<^verbatim>\<open>frontend/seed_postgres.py\<close>) raise Python exceptions; the model returns them as
  values of a sum type, \<open>Inl\<close> carrying the exception.
\<close>

datatype error =
    KeyError
  | ValueError
  | TypeError
  | IntCastingNaNError
  | OutOfBoundsDatetime
  | FileNotFoundError
  | OperationalError
  | DataError

definition ebind :: "error + 'a \<Rightarrow> ('a \<Rightarrow> error + 'b) \<Rightarrow> error + 'b" where
  "ebind m f = (case m of Inl e \<Rightarrow> Inl e | Inr a \<Rightarrow> f a)"

text \<open>
  A float64 value: a finite value (a rational, no rounding is modelled), an infinity
  (\<open>Inf True\<close> is the positive one) or NaN.
\<close>

datatype float64 = Fin rat | Inf bool | NaN

text \<open>
  \<^verbatim>\<open>str.lower()\<close> on the ASCII letters. The strings the scripts compare a lowercased
  name with are ASCII, and no character outside ASCII lowercases to one of their letters.
\<close>

definition lower_char :: "char \<Rightarrow> char" where
  "lower_char c =
     (if 65 \<le> (of_char c :: nat) \<and> (of_char c :: nat) \<le> 90
      then char_of ((of_char c :: nat) + 32) else c)"

definition lower :: "string \<Rightarrow> string" where
  "lower s = map lower_char s"

section \<open>The PostgreSQL variant (frontend/seed_postgres.py)\<close>

subsection \<open>convert_boolean\<close>

text \<open>
  \<^verbatim>\<open>
  def convert_boolean(value):
      if value.lower() in ('true', 't', '1', 'yes'):
          return True
      elif value.lower() in ('false', 'f', '0', 'no', ''):
          return False
      return None
  \<close>
\<close>

definition convert_boolean :: "string \<Rightarrow> bool option" where
  "convert_boolean v =
     (if lower v \<in> set [''true'', ''t'', ''1'', ''yes''] then Some True
      else if lower v \<in> set [''false'', ''f'', ''0'', ''no'', ''''] then Some False
      else None)"

subsection \<open>Rows of the CSV reader and of the table\<close>

text \<open>
  A row of \<^verbatim>\<open>csv.DictReader\<close> is a dictionary from the header's names to the text of
  the field; a row shorter than the header has \<^verbatim>\<open>None\<close> for its missing fields. So
  \<open>row k = None\<close> is a name that is not in the header (\<^verbatim>\<open>row[k]\<close> raises KeyError),
  \<open>row k = Some None\<close> a missing field and \<open>row k = Some (Some s)\<close> the text \<open>s\<close>.
\<close>

type_synonym csv_row = "string \<rightharpoonup> string option"

definition getitem :: "csv_row \<Rightarrow> string \<Rightarrow> error + string option" where
  "getitem row k = (case row k of None \<Rightarrow> Inl KeyError | Some v \<Rightarrow> Inr v)"

text \<open>Python's truth value of a field: \<^verbatim>\<open>None\<close> and the empty string are false.\<close>

definition truthy :: "string option \<Rightarrow> bool" where
  "truthy v = (case v of None \<Rightarrow> False | Some s \<Rightarrow> s \<noteq> [])"

text \<open>The tuple of line 74 to 85, in the order of the INSERT statement's columns.\<close>

record pg_row =
  pg_id :: "string option"
  pg_class :: "string option"
  pg_t :: "string option"
  pg_x :: float64
  pg_y :: float64
  pg_heading :: "float64 option"
  pg_area :: "string option"
  pg_vest :: "int option"
  pg_speed :: "float64 option"
  pg_with_object :: "bool option"

text \<open>
  What the scripts take from their libraries is a parameter of the model: the built-in
  \<^verbatim>\<open>float\<close> and \<^verbatim>\<open>int\<close> on a string (\<open>None\<close> where they raise ValueError), and
  \<open>pg_reads\<close>, whether psycopg2 and the PostgreSQL server take the values of a tuple
  as values of the types of the table's columns: whether the server reads the text of
  \<^verbatim>\<open>t\<close> as a \<^verbatim>\<open>TIMESTAMP WITH TIME ZONE\<close>, whether the texts can be sent (no NUL
  character, characters of the server's encoding), and whatever else they check on a
  value.
\<close>

record pylib =
  py_float :: "string \<Rightarrow> float64 option"
  py_int :: "string \<Rightarrow> int option"
  pg_reads :: "pg_row \<Rightarrow> bool"

definition float_of :: "pylib \<Rightarrow> string option \<Rightarrow> error + float64" where
  "float_of L v =
     (case v of None \<Rightarrow> Inl TypeError
      | Some s \<Rightarrow> (case py_float L s of None \<Rightarrow> Inl ValueError | Some f \<Rightarrow> Inr f))"

definition int_of :: "pylib \<Rightarrow> string option \<Rightarrow> error + int" where
  "int_of L v =
     (case v of None \<Rightarrow> Inl TypeError
      | Some s \<Rightarrow> (case py_int L s of None \<Rightarrow> Inl ValueError | Some i \<Rightarrow> Inr i))"

text \<open>\<^verbatim>\<open>f(row[k]) if row[k] else None\<close>\<close>

definition if_truthy :: "(string option \<Rightarrow> error + 'a) \<Rightarrow> string option \<Rightarrow> error + 'a option" where
  "if_truthy f v = (if truthy v then ebind (f v) (\<lambda>a. Inr (Some a)) else Inr None)"

text \<open>
  \<^verbatim>\<open>convert_boolean(row['with_object']) if row['with_object'] else None\<close>: the
  function is called on a non-empty text only.
\<close>

definition with_object_of :: "string option \<Rightarrow> bool option" where
  "with_object_of v = (if truthy v then convert_boolean (the v) else None)"

text \<open>
  \<^verbatim>\<open>
  data = (row['id'], row['type'], row['timestamp'],
          float(row['x']), float(row['y']),
          float(row['heading']) if row['heading'] else None,
          row['area'] if row['area'] else None,
          int(row['vest']) if row['vest'] else None,
          float(row['speed']) if row['speed'] else None,
          convert_boolean(row['with_object']) if row['with_object'] else None)
  \<close>
  The elements are evaluated from left to right, so the first one that raises decides
  the exception.
\<close>

definition row_data :: "pylib \<Rightarrow> csv_row \<Rightarrow> error + pg_row" where
  "row_data L row =
     ebind (getitem row ''id'') (\<lambda>i.
     ebind (getitem row ''type'') (\<lambda>c.
     ebind (getitem row ''timestamp'') (\<lambda>t.
     ebind (ebind (getitem row ''x'') (float_of L)) (\<lambda>x.
     ebind (ebind (getitem row ''y'') (float_of L)) (\<lambda>y.
     ebind (ebind (getitem row ''heading'') (if_truthy (float_of L))) (\<lambda>h.
     ebind (getitem row ''area'') (\<lambda>a.
     ebind (ebind (getitem row ''vest'') (if_truthy (int_of L))) (\<lambda>v.
     ebind (ebind (getitem row ''speed'') (if_truthy (float_of L))) (\<lambda>s.
     ebind (getitem row ''with_object'') (\<lambda>w.
       Inr \<lparr>pg_id = i, pg_class = c, pg_t = t, pg_x = x, pg_y = y, pg_heading = h,
            pg_area = (if truthy a then a else None), pg_vest = v, pg_speed = s,
            pg_with_object = with_object_of w\<rparr>))))))))))"

subsection \<open>The batch loader\<close>

text \<open>
  The effects of the loader on the connection, in the order it makes them: the rows of
  one \<^verbatim>\<open>execute_batch\<close> call, and \<^verbatim>\<open>conn.commit()\<close>. psycopg2 opens a transaction
  with the first statement after a commit, so the inserts between two commits are one
  transaction.
\<close>

datatype db_op = Insert "pg_row list" | Commit

text \<open>
  \<^verbatim>\<open>
  CREATE TABLE IF NOT EXISTS detections (
      id TEXT NOT NULL, class TEXT NOT NULL, t TIMESTAMP WITH TIME ZONE NOT NULL,
      x DOUBLE PRECISION NOT NULL, y DOUBLE PRECISION NOT NULL, heading DOUBLE PRECISION,
      area TEXT, vest INTEGER, speed DOUBLE PRECISION, with_object BOOLEAN);
  \<close>
  The server refuses a row with a null in \<^verbatim>\<open>id\<close>, \<^verbatim>\<open>class\<close> or \<^verbatim>\<open>t\<close> (\<^verbatim>\<open>x\<close> and
  \<^verbatim>\<open>y\<close> of a tuple are never null), a \<^verbatim>\<open>vest\<close> outside the range of the 32-bit
  \<^verbatim>\<open>INTEGER\<close>, and a tuple whose values it does not read. A float of Python, NaN and
  the infinities included, is a value of \<^verbatim>\<open>DOUBLE PRECISION\<close>. The connection is taken
  to stay up.
\<close>

definition pg_accepts :: "pylib \<Rightarrow> pg_row \<Rightarrow> bool" where
  "pg_accepts L d =
     (pg_id d \<noteq> None \<and> pg_class d \<noteq> None \<and> pg_t d \<noteq> None \<and>
      (case pg_vest d of None \<Rightarrow> True | Some v \<Rightarrow> - 2147483648 \<le> v \<and> v \<le> 2147483647) \<and>
      pg_reads L d)"

definition execute_batch :: "pylib \<Rightarrow> pg_row list \<Rightarrow> error + unit" where
  "execute_batch L batch = (if list_all (pg_accepts L) batch then Inr () else Inl DataError)"

text \<open>
  \<^verbatim>\<open>
  for row in reader:
      data = (...)
      batch.append(data)
      if len(batch) >= batch_size:
          with conn.cursor() as cur:
              execute_batch(cur, "INSERT ...", batch)
          conn.commit()
          total_rows += len(batch)
          batch = []
  if batch:
      with conn.cursor() as cur:
          execute_batch(cur, "INSERT ...", batch)
      conn.commit()
      total_rows += len(batch)
  return total_rows
  \<close>
  The loop's state is \<open>batch\<close> and \<open>total_rows\<close>. The result is the list of effects made
  and either the exception that ended the run or the value returned.
\<close>

fun load_rows :: "pylib \<Rightarrow> nat \<Rightarrow> csv_row list \<Rightarrow> pg_row list \<Rightarrow> nat \<Rightarrow> db_op list \<times> (error + nat)" where
  "load_rows L bs [] batch total_rows =
     (if batch \<noteq> [] then
        (case execute_batch L batch of
           Inl e \<Rightarrow> ([], Inl e)
         | Inr u \<Rightarrow> ([Insert batch, Commit], Inr (total_rows + length batch)))
      else ([], Inr total_rows))"
| "load_rows L bs (row # rows) batch total_rows =
     (case row_data L row of
        Inl e \<Rightarrow> ([], Inl e)
      | Inr d \<Rightarrow>
          (if bs \<le> length (batch @ [d]) then
             (case execute_batch L (batch @ [d]) of
                Inl e \<Rightarrow> ([], Inl e)
              | Inr u \<Rightarrow>
                  (case load_rows L bs rows [] (total_rows + length (batch @ [d])) of
                     (ops, r) \<Rightarrow> (Insert (batch @ [d]) # Commit # ops, r)))
           else load_rows L bs rows (batch @ [d]) total_rows))"

definition batch_size :: nat where
  "batch_size = 1000"

definition load_csv_data :: "pylib \<Rightarrow> csv_row list \<Rightarrow> db_op list \<times> (error + nat)" where
  "load_csv_data L rows = load_rows L batch_size rows [] 0"

text \<open>
  What a list of effects leaves in the table: the rows inserted since the last commit
  are visible to the connection only, a commit makes them the table's. The state is the
  committed rows and the connection's view.
\<close>

fun run_ops :: "db_op list \<Rightarrow> pg_row list \<times> pg_row list \<Rightarrow> pg_row list \<times> pg_row list" where
  "run_ops [] s = s"
| "run_ops (Insert b # ops) (c, w) = run_ops ops (c, w @ b)"
| "run_ops (Commit # ops) (c, w) = run_ops ops (w, w)"

definition committed :: "db_op list \<Rightarrow> pg_row list" where
  "committed ops = fst (run_ops ops ([], []))"

text \<open>
  The partition the specification describes: consecutive pieces of \<open>n\<close> elements in
  order, the last one possibly shorter.
\<close>

function chunks :: "nat \<Rightarrow> 'a list \<Rightarrow> 'a list list" where
  "chunks n xs = (if n = 0 \<or> xs = [] then [] else take n xs # chunks n (drop n xs))"
  by pat_completeness auto
termination
  by (relation "measure (\<lambda>(n, xs). length xs)") auto

declare chunks.simps [simp del]

subsection \<open>main\<close>

text \<open>
  \<^verbatim>\<open>
  database_url = os.environ.get('DATABASE_URL')
  if not database_url and len(sys.argv) > 1:
      database_url = sys.argv[1]
  \<close>
\<close>

definition database_url :: "string option \<Rightarrow> string list \<Rightarrow> string option" where
  "database_url env argv = (if \<not> truthy env \<and> 1 < length argv then Some (argv ! 1) else env)"

text \<open>
  What \<^verbatim>\<open>main\<close> reads: the environment variable, the arguments, the rows of the CSV
  file (\<open>None\<close> when the path does not exist), whether a connection to a URL can be
  opened, the \<^verbatim>\<open>detections\<close> table of the server (\<open>None\<close> when it does not exist) and
  the answer typed at the prompt. What it leaves: the exit status, the URL it called
  \<^verbatim>\<open>get_db_connection\<close> with (\<open>None\<close> when it never did) and the table.
\<close>

record pg_world =
  environ_url :: "string option"
  argv :: "string list"
  csv_file :: "csv_row list option"
  reachable :: "string \<Rightarrow> bool"
  pg_table :: "pg_row list option"
  response :: string

record pg_run =
  exit_status :: nat
  connected_to :: "string option"
  table_after :: "pg_row list option"

text \<open>
  \<^verbatim>\<open>
  if not database_url: ...; sys.exit(1)
  if not os.path.exists(csv_path): ...; sys.exit(1)
  try:
      conn = get_db_connection(database_url)
      with conn.cursor() as cur:
          cur.execute("SELECT COUNT(*) FROM detections")
          existing_count = cur.fetchone()[0]
          if existing_count > 0:
              response = input(...)
              if response.lower() in ('yes', 'y'):
                  cur.execute("TRUNCATE TABLE detections"); conn.commit()
              else:
                  conn.close(); return
      create_table(conn)
      load_csv_data(conn, csv_path)
      ...
  except Exception as e:
      sys.exit(1)
  \<close>
  The count is read before \<^verbatim>\<open>create_table\<close> runs, so a server without the table
  ends the run in the handler. Rows inserted and not committed are lost when the process
  exits.
\<close>

definition main_pg :: "pylib \<Rightarrow> pg_world \<Rightarrow> pg_run" where
  "main_pg L W =
     (let url = database_url (environ_url W) (argv W) in
      if \<not> truthy url then
        \<lparr>exit_status = 1, connected_to = None, table_after = pg_table W\<rparr>
      else
        (case csv_file W of
           None \<Rightarrow> \<lparr>exit_status = 1, connected_to = None, table_after = pg_table W\<rparr>
         | Some rows \<Rightarrow>
             if \<not> reachable W (the url) then
               \<lparr>exit_status = 1, connected_to = url, table_after = pg_table W\<rparr>
             else
               (case pg_table W of
                  None \<Rightarrow> \<lparr>exit_status = 1, connected_to = url, table_after = None\<rparr>
                | Some existing \<Rightarrow>
                    if existing \<noteq> [] \<and> lower (response W) \<notin> set [''yes'', ''y''] then
                      \<lparr>exit_status = 0, connected_to = url, table_after = Some existing\<rparr>
                    else
                      (case load_csv_data L rows of
                         (ops, r) \<Rightarrow>
                           \<lparr>exit_status = (case r of Inl e \<Rightarrow> 1 | Inr n \<Rightarrow> 0),
                            connected_to = url,
                            table_after = Some (committed ops)\<rparr>))))"

subsection \<open>An instance of the library functions\<close>

text \<open>
  For the concrete runs below: \<^verbatim>\<open>int\<close> and \<^verbatim>\<open>float\<close> on plain decimal literals (an
  optional sign, digits, for \<^verbatim>\<open>float\<close> an optional point), which Python reads as
  the number written, and on texts without a digit such as \<^verbatim>\<open>bad\<close>, where Python
  raises ValueError; and a server that reads the tuples whose timestamp is a text of the
  shape \<^verbatim>\<open>2024-01-01 00:00:00\<close>. The concrete runs use no other text.
\<close>

definition digit_of :: "char \<Rightarrow> nat option" where
  "digit_of c =
     (if 48 \<le> (of_char c :: nat) \<and> (of_char c :: nat) \<le> 57
      then Some ((of_char c :: nat) - 48) else None)"

fun digits_val :: "string \<Rightarrow> nat \<Rightarrow> nat option" where
  "digits_val [] acc = Some acc"
| "digits_val (c # cs) acc =
     (case digit_of c of None \<Rightarrow> None | Some d \<Rightarrow> digits_val cs (10 * acc + d))"

definition unsigned_of :: "string \<Rightarrow> nat option" where
  "unsigned_of s = (if s = [] then None else digits_val s 0)"

definition decimal_int :: "string \<Rightarrow> int option" where
  "decimal_int s =
     (case s of
        [] \<Rightarrow> None
      | c # cs \<Rightarrow>
          if c = CHR ''-'' then map_option (\<lambda>n. - int n) (unsigned_of cs)
          else if c = CHR ''+'' then map_option int (unsigned_of cs)
          else map_option int (unsigned_of s))"

definition unsigned_float :: "string \<Rightarrow> rat option" where
  "unsigned_float s =
     (let ip = takeWhile (\<lambda>c. c \<noteq> CHR ''.'') s; fp = drop (Suc (length ip)) s in
      if ip = [] \<and> fp = [] then None
      else
        (case (digits_val ip 0, digits_val fp 0) of
           (Some a, Some b) \<Rightarrow> Some (of_nat a + of_nat b / 10 ^ length fp)
         | _ \<Rightarrow> None))"

definition decimal_float :: "string \<Rightarrow> float64 option" where
  "decimal_float s =
     (case s of
        [] \<Rightarrow> None
      | c # cs \<Rightarrow>
          if c = CHR ''-'' then map_option (\<lambda>q. Fin (- q)) (unsigned_float cs)
          else if c = CHR ''+'' then map_option Fin (unsigned_float cs)
          else map_option Fin (unsigned_float s))"

definition timestamp_shape :: "string \<Rightarrow> bool" where
  "timestamp_shape s =
     (length s = 19 \<and>
      list_all (\<lambda>i. digit_of (s ! i) \<noteq> None) [0, 1, 2, 3, 5, 6, 8, 9, 11, 12, 14, 15, 17, 18] \<and>
      s ! 4 = CHR ''-'' \<and> s ! 7 = CHR ''-'' \<and> s ! 10 = CHR '' '' \<and>
      s ! 13 = CHR '':'' \<and> s ! 16 = CHR '':'')"

definition decimal_lib :: pylib where
  "decimal_lib =
     \<lparr>py_float = decimal_float, py_int = decimal_int,
      pg_reads = (\<lambda>d. case pg_t d of None \<Rightarrow> False | Some s \<Rightarrow> timestamp_shape s)\<rparr>"

text \<open>A row of the reader with the ten columns of the data file.\<close>

definition csv_row_of :: "string list \<Rightarrow> csv_row" where
  "csv_row_of vs =
     map_of (zip [''type'', ''timestamp'', ''id'', ''x'', ''y'', ''heading'', ''area'', ''vest'',
                  ''speed'', ''with_object''] (map Some vs))"

section \<open>The SQLite variants (backend/data/seed_sqlite.py and seed_sqlite.py)\<close>

subsection \<open>Data frames\<close>

text \<open>
  A frame as \<^verbatim>\<open>pd.read_csv\<close> returns it: the columns in order, each with its name
  and its values. A column is of integers (int64, or uint64 when a value is beyond
  int64; no value missing), float64 (a missing field is NaN) or object (texts, a missing field is \<open>None\<close>); the column of timestamps the
  scripts add is datetime64 (\<open>None\<close> is NaT). An instant is a number of nanoseconds
  since the epoch, in UTC. All columns of a frame have the same length and
  \<^verbatim>\<open>read_csv\<close> gives them distinct names. A column of booleans, which \<^verbatim>\<open>read_csv\<close>
  makes of a column of \<^verbatim>\<open>True\<close> and \<^verbatim>\<open>False\<close>, is not modelled.
\<close>

type_synonym instant = int

datatype column =
    IntCol "int list"
  | FloatCol "float64 list"
  | ObjCol "string option list"
  | TimeCol "instant option list"

type_synonym dataframe = "(string \<times> column) list"

datatype cell = Null | IntV int | FloatV float64 | TextV string | TimeV instant

datatype epoch_unit = Milliseconds | Seconds

text \<open>
  What the scripts take from pandas and numpy is a parameter of the model:
  \<^item> \<open>to_datetime_epoch u q\<close>: the instant \<^verbatim>\<open>pd.to_datetime(..., unit=u, utc=True)\<close> gives
    for the number \<open>q\<close>, \<open>None\<close> where it raises OutOfBoundsDatetime;
  \<^item> \<open>to_datetime_text col s\<close>: the instant \<^verbatim>\<open>pd.to_datetime(col, utc=True,
    errors='coerce')\<close> gives for the text \<open>s\<close> of the column \<open>col\<close> (pandas may read the
    format off the column), \<open>None\<close> where it gives NaT;
  \<^item> \<open>to_numeric_text s\<close>: the number \<^verbatim>\<open>pd.to_numeric(..., errors='coerce')\<close> gives for
    a text, NaN where the text is no number;
  \<^item> \<open>cast_overflow q\<close>: what \<^verbatim>\<open>astype('int64')\<close> gives for a finite value outside the
    range of int64;
  \<^item> \<open>py_str c\<close>: \<^verbatim>\<open>astype(str)\<close> on a number;
  \<^item> \<open>max_variables\<close>: the number of parameters SQLite accepts in one statement.
\<close>

record pandas =
  to_datetime_epoch :: "epoch_unit \<Rightarrow> rat \<Rightarrow> instant option"
  to_datetime_text :: "string option list \<Rightarrow> string \<Rightarrow> instant option"
  to_numeric_text :: "string \<Rightarrow> float64"
  cast_overflow :: "rat \<Rightarrow> int"
  py_str :: "cell \<Rightarrow> string"
  max_variables :: nat

fun col_length :: "column \<Rightarrow> nat" where
  "col_length (IntCol vs) = length vs"
| "col_length (FloatCol vs) = length vs"
| "col_length (ObjCol vs) = length vs"
| "col_length (TimeCol vs) = length vs"

fun cells :: "column \<Rightarrow> cell list" where
  "cells (IntCol vs) = map IntV vs"
| "cells (FloatCol vs) = map (\<lambda>f. if f = NaN then Null else FloatV f) vs"
| "cells (ObjCol vs) = map (\<lambda>v. case v of None \<Rightarrow> Null | Some s \<Rightarrow> TextV s) vs"
| "cells (TimeCol vs) = map (\<lambda>v. case v of None \<Rightarrow> Null | Some t \<Rightarrow> TimeV t) vs"

text \<open>\<^verbatim>\<open>df.columns\<close>, \<^verbatim>\<open>name in df.columns\<close>, \<^verbatim>\<open>df[name]\<close>, \<^verbatim>\<open>len(df)\<close>.\<close>

definition columns :: "dataframe \<Rightarrow> string list" where
  "columns df = map fst df"

definition getcol :: "dataframe \<Rightarrow> string \<Rightarrow> column" where
  "getcol df name = the (map_of df name)"

definition nrows :: "dataframe \<Rightarrow> nat" where
  "nrows df = (case df of [] \<Rightarrow> 0 | (name, col) # rest \<Rightarrow> col_length col)"

text \<open>
  \<^verbatim>\<open>df[name] = col\<close>: the column of that name is replaced where it stands, a new name
  is added after the last column.
\<close>

definition setcol :: "dataframe \<Rightarrow> string \<Rightarrow> column \<Rightarrow> dataframe" where
  "setcol df name col =
     (if name \<in> set (columns df)
      then map (\<lambda>(n, c). if n = name then (n, col) else (n, c)) df
      else df @ [(name, col)])"

subsection \<open>infer_timestamp_col\<close>

text \<open>
  \<^verbatim>\<open>
  def infer_timestamp_col(df):
      for cand in ['t', 'timestamp', 'time']:
          if cand in df.columns:
              return cand
      raise KeyError('No timestamp column found (expected one of t/timestamp/time)')
  \<close>
  The same text in both scripts.
\<close>

fun first_candidate :: "string list \<Rightarrow> string list \<Rightarrow> error + string" where
  "first_candidate [] cols = Inl KeyError"
| "first_candidate (cand # cands) cols =
     (if cand \<in> set cols then Inr cand else first_candidate cands cols)"

definition infer_timestamp_col :: "dataframe \<Rightarrow> error + string" where
  "infer_timestamp_col df = first_candidate [''t'', ''timestamp'', ''time''] (columns df)"

subsection \<open>The timestamp column\<close>

text \<open>
  \<^verbatim>\<open>
  if pd.api.types.is_integer_dtype(df[ts_col]) or pd.api.types.is_float_dtype(df[ts_col]):
      # Assume milliseconds since epoch if > 10^10, else seconds
      factor = 1000 if df[ts_col].astype('int64').max() > 10_000_000_000 else 1
      df['t'] = pd.to_datetime(df[ts_col], unit='ms' if factor == 1000 else 's', utc=True)
  else:
      df['t'] = pd.to_datetime(df[ts_col], utc=True, errors='coerce')
  \<close>
  The same text in both scripts. \<^verbatim>\<open>is_integer_dtype\<close> holds of int64 and of uint64.
  \<^verbatim>\<open>astype('int64')\<close> raises on a float64 column with a
  NaN or an infinity and cuts the fraction of a finite value off; \<^verbatim>\<open>max()\<close> of a column
  without rows is NaN, which is not greater than any number.
\<close>

definition finite_values :: "float64 list \<Rightarrow> rat list option" where
  "finite_values fs =
     (if list_all (\<lambda>f. case f of Fin q \<Rightarrow> True | _ \<Rightarrow> False) fs
      then Some (map (\<lambda>f. case f of Fin q \<Rightarrow> q | _ \<Rightarrow> 0) fs) else None)"

definition cut_fraction :: "rat \<Rightarrow> int" where
  "cut_fraction q = (if 0 \<le> q then \<lfloor>q\<rfloor> else \<lceil>q\<rceil>)"

definition int64_of :: "pandas \<Rightarrow> rat \<Rightarrow> int" where
  "int64_of P q =
     (if - (2 ^ 63) \<le> cut_fraction q \<and> cut_fraction q < 2 ^ 63 then cut_fraction q else cast_overflow P q)"

text \<open>
  \<^verbatim>\<open>astype('int64')\<close> on a column of integers: an int64 value stays, a value of a uint64
  column from \<open>2^63\<close> on wraps around to a negative one.
\<close>

definition wrap_int64 :: "int \<Rightarrow> int" where
  "wrap_int64 v = (v + 2 ^ 63) mod 2 ^ 64 - 2 ^ 63"

definition series_max :: "int list \<Rightarrow> int option" where
  "series_max vs = (case vs of [] \<Rightarrow> None | v # rest \<Rightarrow> Some (fold max rest v))"

definition factor_of :: "int list \<Rightarrow> nat" where
  "factor_of vs =
     (case series_max vs of None \<Rightarrow> 1 | Some m \<Rightarrow> if 10000000000 < m then 1000 else 1)"

definition unit_of :: "nat \<Rightarrow> epoch_unit" where
  "unit_of factor = (if factor = 1000 then Milliseconds else Seconds)"

text \<open>The call with a unit raises when one value is out of the range of a timestamp.\<close>

definition to_datetime_unit :: "pandas \<Rightarrow> epoch_unit \<Rightarrow> rat list \<Rightarrow> error + column" where
  "to_datetime_unit P u qs =
     (if list_all (\<lambda>q. to_datetime_epoch P u q \<noteq> None) qs
      then Inr (TimeCol (map (to_datetime_epoch P u) qs))
      else Inl OutOfBoundsDatetime)"

definition to_datetime_coerce :: "pandas \<Rightarrow> string option list \<Rightarrow> column" where
  "to_datetime_coerce P vs =
     TimeCol (map (\<lambda>v. case v of None \<Rightarrow> None | Some s \<Rightarrow> to_datetime_text P vs s) vs)"

fun normalize_timestamp :: "pandas \<Rightarrow> column \<Rightarrow> error + column" where
  "normalize_timestamp P (IntCol vs) =
     to_datetime_unit P (unit_of (factor_of (map wrap_int64 vs))) (map of_int vs)"
| "normalize_timestamp P (FloatCol fs) =
     (case finite_values fs of
        None \<Rightarrow> Inl IntCastingNaNError
      | Some qs \<Rightarrow> to_datetime_unit P (unit_of (factor_of (map (int64_of P) qs))) qs)"
| "normalize_timestamp P (ObjCol vs) = Inr (to_datetime_coerce P vs)"
| "normalize_timestamp P (TimeCol ts) = Inr (TimeCol ts)"

subsection \<open>Renaming, coercion and cleaning\<close>

text \<open>
  \<^verbatim>\<open>
  rename_map = {}
  for c in df.columns:
      if c.lower() in ['class_name', 'label', 'type']:
          rename_map[c] = 'class'
  if rename_map:
      df = df.rename(columns=rename_map)
  \<close>
  The list of names is \<^verbatim>\<open>['class_name','label']\<close> in \<^verbatim>\<open>seed_sqlite.py\<close>, so it is a
  parameter here.
\<close>

definition rename_columns :: "string list \<Rightarrow> dataframe \<Rightarrow> dataframe" where
  "rename_columns aliases df =
     map (\<lambda>(c, col). (if lower c \<in> set aliases then ''class'' else c, col)) df"

definition missing_cols :: "dataframe \<Rightarrow> string list" where
  "missing_cols df = filter (\<lambda>col. col \<notin> set (columns df)) [''id'', ''class'', ''x'', ''y'', ''t'']"

text \<open>
  \<^verbatim>\<open>pd.to_numeric(df[col], errors='coerce')\<close>: a numeric column stays, a text becomes its
  number or NaN, a missing field NaN. A column of timestamps does not reach the call:
  \<^verbatim>\<open>read_csv\<close> makes none and the one the scripts make is \<^verbatim>\<open>t\<close>.
\<close>

fun to_numeric :: "pandas \<Rightarrow> column \<Rightarrow> column" where
  "to_numeric P (IntCol vs) = IntCol vs"
| "to_numeric P (FloatCol fs) = FloatCol fs"
| "to_numeric P (ObjCol vs) =
     FloatCol (map (\<lambda>v. case v of None \<Rightarrow> NaN | Some s \<Rightarrow> to_numeric_text P s) vs)"
| "to_numeric P (TimeCol ts) = TimeCol ts"

text \<open>
  \<^verbatim>\<open>
  for col in ['x', 'y', 'heading', 'speed', 'vest']:
      if col in df.columns:
          df[col] = pd.to_numeric(df[col], errors='coerce')
  \<close>
\<close>

fun numeric_casts :: "pandas \<Rightarrow> string list \<Rightarrow> dataframe \<Rightarrow> dataframe" where
  "numeric_casts P [] df = df"
| "numeric_casts P (col # cols) df =
     numeric_casts P cols
       (if col \<in> set (columns df) then setcol df col (to_numeric P (getcol df col)) else df)"

text \<open>
  \<^verbatim>\<open>
  if 'area' in df.columns:
      df['area'] = df['area'].astype(str).replace('nan', None)
  else:
      df['area'] = None
  \<close>
  \<^verbatim>\<open>astype(str)\<close> writes a missing field as \<^verbatim>\<open>nan\<close>, and the replacement is made value
  by value.
\<close>

definition str_of_cell :: "pandas \<Rightarrow> cell \<Rightarrow> string" where
  "str_of_cell P c = (case c of Null \<Rightarrow> ''nan'' | TextV s \<Rightarrow> s | _ \<Rightarrow> py_str P c)"

definition area_column :: "pandas \<Rightarrow> column \<Rightarrow> column" where
  "area_column P col =
     ObjCol (map (\<lambda>c. if str_of_cell P c = ''nan'' then None else Some (str_of_cell P c)) (cells col))"

definition handle_area :: "pandas \<Rightarrow> dataframe \<Rightarrow> dataframe" where
  "handle_area P df =
     (if ''area'' \<in> set (columns df) then setcol df ''area'' (area_column P (getcol df ''area''))
      else setcol df ''area'' (ObjCol (replicate (nrows df) None)))"

text \<open>
  \<^verbatim>\<open>df.dropna(subset=[...])\<close> keeps the rows that have a value in each of the named
  columns: NaN, \<open>None\<close> and NaT are missing values, an infinity is not.
\<close>

fun isna :: "column \<Rightarrow> bool list" where
  "isna (IntCol vs) = map (\<lambda>v. False) vs"
| "isna (FloatCol fs) = map (\<lambda>f. f = NaN) fs"
| "isna (ObjCol vs) = map (\<lambda>v. v = None) vs"
| "isna (TimeCol ts) = map (\<lambda>t. t = None) ts"

definition keep :: "bool list \<Rightarrow> 'a list \<Rightarrow> 'a list" where
  "keep flags vs = map snd (filter fst (zip flags vs))"

fun keep_col :: "bool list \<Rightarrow> column \<Rightarrow> column" where
  "keep_col flags (IntCol vs) = IntCol (keep flags vs)"
| "keep_col flags (FloatCol fs) = FloatCol (keep flags fs)"
| "keep_col flags (ObjCol vs) = ObjCol (keep flags vs)"
| "keep_col flags (TimeCol ts) = TimeCol (keep flags ts)"

fun notna_all :: "dataframe \<Rightarrow> string list \<Rightarrow> bool list" where
  "notna_all df [] = replicate (nrows df) True"
| "notna_all df (name # names) =
     map (\<lambda>(a, b). \<not> a \<and> b) (zip (isna (getcol df name)) (notna_all df names))"

definition dropna :: "string list \<Rightarrow> dataframe \<Rightarrow> dataframe" where
  "dropna names df = map (\<lambda>(n, col). (n, keep_col (notna_all df names) col)) df"

subsection \<open>process_dataframe (backend/data/seed_sqlite.py)\<close>

text \<open>
  The messages of \<^verbatim>\<open>process_dataframe\<close> that count rows (its other messages are
  left out):
  \<^verbatim>\<open>
  initial_count = len(df)
  df = df.dropna(subset=['x', 'y'])
  final_count = len(df)
  if initial_count != final_count:
      log_info(f"Removed {initial_count - final_count} rows with invalid coordinates")
  initial_count = len(df)
  df = df.dropna(subset=['t'])
  final_count = len(df)
  if initial_count != final_count:
      log_info(f"Removed {initial_count - final_count} rows with invalid timestamps")
  \<close>
\<close>

datatype log_msg = RemovedInvalidCoordinates nat | RemovedInvalidTimestamps nat

definition set_timestamp :: "pandas \<Rightarrow> dataframe \<Rightarrow> error + dataframe" where
  "set_timestamp P df =
     ebind (infer_timestamp_col df) (\<lambda>ts_col.
     ebind (normalize_timestamp P (getcol df ts_col)) (\<lambda>t.
       Inr (setcol df ''t'' t)))"

definition clean :: "pandas \<Rightarrow> dataframe \<Rightarrow> dataframe" where
  "clean P df = handle_area P (numeric_casts P [''x'', ''y'', ''heading'', ''speed'', ''vest''] df)"

definition drop_invalid :: "dataframe \<Rightarrow> log_msg list \<times> dataframe" where
  "drop_invalid df =
     (let df1 = dropna [''x'', ''y''] df;
          log1 = (if nrows df \<noteq> nrows df1 then [RemovedInvalidCoordinates (nrows df - nrows df1)] else []);
          df2 = dropna [''t''] df1;
          log2 = (if nrows df1 \<noteq> nrows df2 then [RemovedInvalidTimestamps (nrows df1 - nrows df2)] else [])
      in (log1 @ log2, df2))"

text \<open>
  \<^verbatim>\<open>process_dataframe\<close> in two steps: the frame after the coercions (line 88 to 126),
  which is where the function can raise, and the two \<^verbatim>\<open>dropna\<close> calls (line 128 to 140).
\<close>

definition coerce_frame :: "pandas \<Rightarrow> dataframe \<Rightarrow> error + dataframe" where
  "coerce_frame P df =
     ebind (set_timestamp P df) (\<lambda>df1.
       let df2 = rename_columns [''class_name'', ''label'', ''type''] df1 in
       if missing_cols df2 \<noteq> [] then Inl KeyError
       else Inr (clean P df2))"

definition process_dataframe :: "pandas \<Rightarrow> dataframe \<Rightarrow> error + log_msg list \<times> dataframe" where
  "process_dataframe P df = ebind (coerce_frame P df) (\<lambda>c. Inr (drop_invalid c))"

subsection \<open>The SQLite database\<close>

text \<open>
  The \<^verbatim>\<open>detections\<close> table of the database file: the columns of its primary key (none
  when it has no key), its indexes (name and indexed column) and its columns with their
  values. The database is \<open>None\<close> when the table does not exist.
\<close>

record sqlite_table =
  primary_key :: "string list"
  indexes :: "(string \<times> string) list"
  frame :: dataframe

type_synonym sqlite_db = "sqlite_table option"

text \<open>
  \<^verbatim>\<open>
  CREATE TABLE IF NOT EXISTS detections (
      id TEXT NOT NULL, class TEXT NOT NULL, t TIMESTAMP NOT NULL,
      x REAL NOT NULL, y REAL NOT NULL, heading REAL, vest INTEGER, speed REAL, area TEXT,
      PRIMARY KEY (id, t));
  \<close>
  A table that exists is left as it is.
\<close>

definition create_schema :: "sqlite_db \<Rightarrow> sqlite_db" where
  "create_schema db =
     (case db of
        Some tbl \<Rightarrow> Some tbl
      | None \<Rightarrow>
          Some \<lparr>primary_key = [''id'', ''t''], indexes = [],
                frame = [(''id'', ObjCol []), (''class'', ObjCol []), (''t'', TimeCol []),
                         (''x'', FloatCol []), (''y'', FloatCol []), (''heading'', FloatCol []),
                         (''vest'', IntCol []), (''speed'', FloatCol []), (''area'', ObjCol [])]\<rparr>)"

text \<open>
  \<^verbatim>\<open>CREATE INDEX IF NOT EXISTS name ON detections(col)\<close>, one statement after the
  other: an index of that name is left as it is, a column the table does not have is
  an error, and the indexes made before the error stay.
\<close>

fun create_indexes :: "(string \<times> string) list \<Rightarrow> sqlite_db \<Rightarrow> error option \<times> sqlite_db" where
  "create_indexes [] db = (None, db)"
| "create_indexes ((name, col) # rest) db =
     (case db of
        None \<Rightarrow> (Some OperationalError, db)
      | Some tbl \<Rightarrow>
          if name \<in> set (map fst (indexes tbl)) then create_indexes rest db
          else if col \<notin> set (columns (frame tbl)) then (Some OperationalError, db)
          else create_indexes rest (Some (tbl\<lparr>indexes := indexes tbl @ [(name, col)]\<rparr>)))"

definition backend_indexes :: "(string \<times> string) list" where
  "backend_indexes =
     [(''idx_detections_t'', ''t''), (''idx_detections_class'', ''class''),
      (''idx_detections_area'', ''area''), (''idx_detections_vest'', ''vest''),
      (''idx_detections_speed'', ''speed'')]"

text \<open>
  \<^verbatim>\<open>df[[names]]\<close>: KeyError when a name is no column; the columns of each name in the
  order of the names.
\<close>

definition select :: "dataframe \<Rightarrow> string list \<Rightarrow> error + dataframe" where
  "select df names =
     (if list_all (\<lambda>n. n \<in> set (columns df)) names
      then Inr (concat (map (\<lambda>n. filter (\<lambda>(c, col). c = n) df) names))
      else Inl KeyError)"

text \<open>
  \<^verbatim>\<open>to_sql('detections', con, if_exists='replace', index=False)\<close>: pandas drops the
  table, with its key and its indexes, creates a table with the columns of the frame
  and no key, and inserts the rows. Creating a table with a column name twice is an
  error, after the old table is dropped. With \<^verbatim>\<open>method='multi'\<close> and no chunk size all
  rows are one INSERT statement with one parameter per value, which SQLite refuses
  beyond its limit; the new table is empty then.
\<close>

definition empty_like :: "dataframe \<Rightarrow> dataframe" where
  "empty_like df = map (\<lambda>(n, col). (n, keep_col [] col)) df"

definition to_sql :: "nat option \<Rightarrow> dataframe \<Rightarrow> sqlite_db \<Rightarrow> error option \<times> sqlite_db" where
  "to_sql limit df db =
     (if \<not> distinct (columns df) then (Some OperationalError, None)
      else
        (case limit of
           Some n \<Rightarrow>
             if n < nrows df * length df
             then (Some OperationalError,
                   Some \<lparr>primary_key = [], indexes = [], frame = empty_like df\<rparr>)
             else (None, Some \<lparr>primary_key = [], indexes = [], frame = df\<rparr>)
         | None \<Rightarrow> (None, Some \<lparr>primary_key = [], indexes = [], frame = df\<rparr>)))"

subsection \<open>main (backend/data/seed_sqlite.py)\<close>

text \<open>
  \<^verbatim>\<open>
  try:
      validate_csv_file(CSV_PATH)
      df = pd.read_csv(CSV_PATH)
      df = process_dataframe(df)
      con = sqlite3.connect(DB_PATH)
      try:
          create_schema(con)
          create_indexes(con)
          df[['id', 'class', 't', 'x', 'y', 'heading', 'vest', 'speed', 'area']].to_sql(
              'detections', con, if_exists='replace', index=False, method='multi')
          ...
      finally:
          con.close()
      return 0
  except Exception as e:
      return 1
  \<close>
  The input is what validating and reading the file gives, an exception or a frame;
  the result is the exit status and the database. Opening the database file is taken
  to succeed.
\<close>

definition main_backend :: "pandas \<Rightarrow> error + dataframe \<Rightarrow> sqlite_db \<Rightarrow> nat \<times> sqlite_db" where
  "main_backend P csv db =
     (case csv of
        Inl e \<Rightarrow> (1, db)
      | Inr df \<Rightarrow>
          (case process_dataframe P df of
             Inl e \<Rightarrow> (1, db)
           | Inr (msgs, df1) \<Rightarrow>
               (case create_indexes backend_indexes (create_schema db) of
                  (Some e, db1) \<Rightarrow> (1, db1)
                | (None, db1) \<Rightarrow>
                    (case select df1 [''id'', ''class'', ''t'', ''x'', ''y'', ''heading'', ''vest'',
                                      ''speed'', ''area''] of
                       Inl e \<Rightarrow> (1, db1)
                     | Inr sel \<Rightarrow>
                         (case to_sql (Some (max_variables P)) sel db1 of
                            (Some e, db2) \<Rightarrow> (1, db2)
                          | (None, db2) \<Rightarrow> (0, db2))))))"

subsection \<open>main (seed_sqlite.py)\<close>

text \<open>
  \<^verbatim>\<open>
  df = pd.read_csv(CSV_PATH)
  ts_col = infer_timestamp_col(df)
  ... (the timestamp column, as above)
  rename_map = {}
  for c in df.columns:
      if c.lower() in ['class_name','label']:
          rename_map[c] = 'class'
  df = df.rename(columns=rename_map)
  required = ['id','class','x','y','t']
  for col in required:
      if col not in df.columns:
          raise KeyError(f'Missing required column: {col}')
  for col in ['x','y','heading','speed','vest']:
      if col in df.columns:
          df[col] = pd.to_numeric(df[col], errors='coerce')
  con = sqlite3.connect(DB_PATH)
  df[['id','class','t','x','y','heading','vest','speed']].to_sql('detections', con,
      if_exists='replace', index=False)
  cur = con.cursor()
  cur.execute('CREATE INDEX IF NOT EXISTS idx_detections_t ON detections(t)')
  cur.execute('CREATE INDEX IF NOT EXISTS idx_detections_class ON detections(class)')
  con.commit()
  con.close()
  \<close>
  No exception is caught: the result is the exception that ended the run (\<open>None\<close> when
  it came to its end) and the database.
\<close>

definition minimal_frame :: "pandas \<Rightarrow> dataframe \<Rightarrow> error + dataframe" where
  "minimal_frame P df =
     ebind (set_timestamp P df) (\<lambda>df1.
       let df2 = rename_columns [''class_name'', ''label''] df1 in
       if missing_cols df2 \<noteq> [] then Inl KeyError
       else Inr (numeric_casts P [''x'', ''y'', ''heading'', ''speed'', ''vest''] df2))"

definition main_minimal :: "pandas \<Rightarrow> error + dataframe \<Rightarrow> sqlite_db \<Rightarrow> error option \<times> sqlite_db" where
  "main_minimal P csv db =
     (case csv of
        Inl e \<Rightarrow> (Some e, db)
      | Inr df \<Rightarrow>
          (case minimal_frame P df of
             Inl e \<Rightarrow> (Some e, db)
           | Inr df1 \<Rightarrow>
               (case select df1 [''id'', ''class'', ''t'', ''x'', ''y'', ''heading'', ''vest'', ''speed''] of
                  Inl e \<Rightarrow> (Some e, db)
                | Inr sel \<Rightarrow>
                    (case to_sql None sel db of
                       (Some e, db1) \<Rightarrow> (Some e, db1)
                     | (None, db1) \<Rightarrow>
                         create_indexes [(''idx_detections_t'', ''t''),
                                         (''idx_detections_class'', ''class'')] db1))))"

subsection \<open>What the verification queries read\<close>

text \<open>
  The figures of the load: the number of rows, the number of distinct classes and the
  earliest and the latest timestamp, as \<^verbatim>\<open>COUNT(*)\<close>, \<^verbatim>\<open>COUNT(DISTINCT class)\<close>,
  \<^verbatim>\<open>MIN(t)\<close> and \<^verbatim>\<open>MAX(t)\<close> give them; and the pairs of \<^verbatim>\<open>id\<close> and \<^verbatim>\<open>t\<close> of the rows.
\<close>

definition row_count :: "sqlite_db \<Rightarrow> nat" where
  "row_count db = (case db of None \<Rightarrow> 0 | Some tbl \<Rightarrow> nrows (frame tbl))"

definition class_count :: "sqlite_db \<Rightarrow> nat" where
  "class_count db =
     (case db of
        None \<Rightarrow> 0
      | Some tbl \<Rightarrow> length (remdups (filter (\<lambda>c. c \<noteq> Null) (cells (getcol (frame tbl) ''class'')))))"

definition instants :: "sqlite_db \<Rightarrow> instant list" where
  "instants db =
     (case db of
        None \<Rightarrow> []
      | Some tbl \<Rightarrow>
          concat (map (\<lambda>c. case c of TimeV t \<Rightarrow> [t] | _ \<Rightarrow> []) (cells (getcol (frame tbl) ''t''))))"

definition min_t :: "sqlite_db \<Rightarrow> instant option" where
  "min_t db = (case instants db of [] \<Rightarrow> None | t # ts \<Rightarrow> Some (fold min ts t))"

definition max_t :: "sqlite_db \<Rightarrow> instant option" where
  "max_t db = (case instants db of [] \<Rightarrow> None | t # ts \<Rightarrow> Some (fold max ts t))"

definition natural_keys :: "sqlite_db \<Rightarrow> (cell \<times> cell) list" where
  "natural_keys db =
     (case db of
        None \<Rightarrow> []
      | Some tbl \<Rightarrow> zip (cells (getcol (frame tbl) ''id'')) (cells (getcol (frame tbl) ''t'')))"

subsection \<open>An instance of the pandas functions\<close>

text \<open>
  For the concrete runs below: an epoch number becomes its nanoseconds, within the
  range of a 64-bit timestamp; a text of the shape \<^verbatim>\<open>2024-01-01 00:00:00\<close> is read as
  that time of that day, any other text gives NaT; a plain decimal literal is its
  number, any other text NaN; an integer is written in decimal digits. The concrete
  runs use timestamps, numbers and \<^verbatim>\<open>area\<close> values of these kinds only.
\<close>

definition epoch_instant :: "epoch_unit \<Rightarrow> rat \<Rightarrow> instant option" where
  "epoch_instant u q =
     (let ns = (case u of Milliseconds \<Rightarrow> \<lfloor>q * 1000000\<rfloor> | Seconds \<Rightarrow> \<lfloor>q * 1000000000\<rfloor>)
      in if - (2 ^ 63) < ns \<and> ns < 2 ^ 63 then Some ns else None)"

definition days_from_civil :: "int \<Rightarrow> int \<Rightarrow> int \<Rightarrow> int" where
  "days_from_civil y m d =
     (let y' = (if m \<le> 2 then y - 1 else y);
          era = y' div 400;
          yoe = y' - era * 400;
          doy = (153 * (if 2 < m then m - 3 else m + 9) + 2) div 5 + d - 1;
          doe = yoe * 365 + yoe div 4 - yoe div 100 + doy
      in era * 146097 + doe - 719468)"

definition text_instant :: "string \<Rightarrow> instant option" where
  "text_instant s =
     (if timestamp_shape s then
        (case (unsigned_of (take 4 s), unsigned_of (take 2 (drop 5 s)), unsigned_of (take 2 (drop 8 s)),
               unsigned_of (take 2 (drop 11 s)), unsigned_of (take 2 (drop 14 s)),
               unsigned_of (take 2 (drop 17 s))) of
           (Some y, Some m, Some d, Some hh, Some mm, Some ss) \<Rightarrow>
             Some ((days_from_civil (int y) (int m) (int d) * 86400
                    + int hh * 3600 + int mm * 60 + int ss) * 1000000000)
         | _ \<Rightarrow> None)
      else None)"

function digits_of :: "nat \<Rightarrow> string" where
  "digits_of n =
     (if n < 10 then [char_of (48 + n)] else digits_of (n div 10) @ [char_of (48 + n mod 10)])"
  by pat_completeness auto
termination
  by (relation "measure (\<lambda>n. n)") auto

declare digits_of.simps [simp del]

definition example_str :: "cell \<Rightarrow> string" where
  "example_str c =
     (case c of
        IntV i \<Rightarrow> (if i < 0 then CHR ''-'' # digits_of (nat (- i)) else digits_of (nat i))
      | TextV s \<Rightarrow> s
      | _ \<Rightarrow> ''nan'')"

definition example_pandas :: pandas where
  "example_pandas =
     \<lparr>to_datetime_epoch = epoch_instant,
      to_datetime_text = (\<lambda>col. text_instant),
      to_numeric_text = (\<lambda>s. case decimal_float s of None \<Rightarrow> NaN | Some f \<Rightarrow> f),
      cast_overflow = (\<lambda>q. - (2 ^ 63)),
      py_str = example_str,
      max_variables = 32766\<rparr>"

section \<open>Predicates and concrete inputs of the theorems\<close>

text \<open>
  Matching a name with a word written in small letters without regard to case, said
  without \<open>lower\<close>: the name has the characters of the word, each as it stands or, where
  it is a small letter, as its capital.
\<close>

definition same_letter :: "char \<Rightarrow> char \<Rightarrow> bool" where
  "same_letter c d =
     (c = d \<or>
      (97 \<le> (of_char d :: nat) \<and> (of_char d :: nat) \<le> 122 \<and> (of_char c :: nat) + 32 = of_char d))"

definition spelled_as :: "string \<Rightarrow> string \<Rightarrow> bool" where
  "spelled_as name word = list_all2 same_letter name word"

definition no_capital :: "string \<Rightarrow> bool" where
  "no_capital word = list_all (\<lambda>d. \<not> (65 \<le> (of_char d :: nat) \<and> (of_char d :: nat) \<le> 90)) word"

text \<open>
  A row of the reader is valid for the loader when its tuple can be built and the
  server accepts it; \<open>data_of\<close> is the tuples of valid rows.
\<close>

definition valid_row :: "pylib \<Rightarrow> csv_row \<Rightarrow> bool" where
  "valid_row L r = (case row_data L r of Inl e \<Rightarrow> False | Inr d \<Rightarrow> pg_accepts L d)"

definition data_of :: "pylib \<Rightarrow> csv_row list \<Rightarrow> pg_row list" where
  "data_of L rows = map (\<lambda>r. projr (row_data L r)) rows"

text \<open>All columns of a frame have the number of rows of the first.\<close>

definition same_length :: "dataframe \<Rightarrow> bool" where
  "same_length df = list_all (\<lambda>(n, col). col_length col = nrows df) df"

text \<open>
  What the two messages of \<^verbatim>\<open>process_dataframe\<close> count, on the frame after the
  coercions: the rows with a missing \<^verbatim>\<open>x\<close> or \<^verbatim>\<open>y\<close>, and the rows with \<^verbatim>\<open>x\<close> and
  \<^verbatim>\<open>y\<close> present and a missing timestamp.
\<close>

definition invalid_coordinates :: "dataframe \<Rightarrow> nat" where
  "invalid_coordinates cf = length (filter Not (notna_all cf [''x'', ''y'']))"

definition invalid_timestamps :: "dataframe \<Rightarrow> nat" where
  "invalid_timestamps cf =
     length (filter (\<lambda>(a, b). a \<and> b) (zip (notna_all cf [''x'', ''y'']) (isna (getcol cf ''t''))))"

text \<open>Three rows of the data file; the third repeats the first.\<close>

definition three_rows :: "csv_row list" where
  "three_rows =
     [csv_row_of [''ped'', ''2024-01-01 00:00:00'', ''a1'', ''1.0'', ''2.0'', '''', '''', ''1'', ''0.5'', ''''],
      csv_row_of [''veh'', ''2024-01-01 00:00:01'', ''a2'', ''3.5'', ''4.0'', ''90'', ''dock'', '''', '''', ''true''],
      csv_row_of [''ped'', ''2024-01-01 00:00:00'', ''a1'', ''1.0'', ''2.0'', '''', '''', ''1'', ''0.5'', '''']]"

text \<open>A row whose \<^verbatim>\<open>x\<close> is no number.\<close>

definition bad_x_row :: csv_row where
  "bad_x_row =
     csv_row_of [''veh'', ''2024-01-01 00:00:01'', ''a2'', ''bad'', ''3.0'', '''', '''', '''', '''', '''']"

text \<open>A row of a file without the column \<^verbatim>\<open>with_object\<close>.\<close>

definition no_with_object_row :: csv_row where
  "no_with_object_row =
     csv_row_of [''ped'', ''2024-01-01 00:00:00'', ''a1'', ''1.0'', ''2.0'', '''', '''', ''1'', ''0.5'']"

text \<open>A row whose \<^verbatim>\<open>with_object\<close> is written in capitals.\<close>

definition capital_row :: csv_row where
  "capital_row =
     csv_row_of [''veh'', ''2024-01-01 00:00:01'', ''a2'', ''3.5'', ''4.0'', ''90'', ''dock'', '''', '''', ''TRUE'']"

text \<open>A row whose \<^verbatim>\<open>vest\<close> is beyond the 32-bit \<^verbatim>\<open>INTEGER\<close>.\<close>

definition big_vest_row :: csv_row where
  "big_vest_row =
     csv_row_of [''ped'', ''2024-01-01 00:00:00'', ''a1'', ''1.0'', ''2.0'', '''', '''', ''2147483648'', ''0.5'', '''']"

text \<open>A file of 1002 rows: 999 times the first of the three rows, then the three.\<close>

definition many_rows :: "csv_row list" where
  "many_rows = replicate 999 (three_rows ! 0) @ three_rows"


text \<open>A run with the variable set and an argument given.\<close>

definition env_and_arg :: pg_world where
  "env_and_arg =
     \<lparr>environ_url = Some ''postgres://env/db'',
      argv = [''seed_postgres.py'', ''postgres://arg/db''],
      csv_file = Some [],
      reachable = (\<lambda>u. True),
      pg_table = Some [],
      response = ''''\<rparr>"

text \<open>A run with neither, and a run with the argument only.\<close>

definition no_url :: pg_world where
  "no_url =
     \<lparr>environ_url = None, argv = [''seed_postgres.py''], csv_file = Some three_rows,
      reachable = (\<lambda>u. True), pg_table = Some [], response = ''''\<rparr>"

definition arg_only :: pg_world where
  "arg_only =
     \<lparr>environ_url = None, argv = [''seed_postgres.py'', ''postgres://arg/db''],
      csv_file = Some three_rows, reachable = (\<lambda>u. True), pg_table = Some [], response = ''''\<rparr>"

text \<open>
  A frame of three rows with the header of the data file: the second row has a text
  that is no number in \<^verbatim>\<open>x\<close>, the third repeats the first.
\<close>

definition type_frame :: dataframe where
  "type_frame =
     [(''type'', ObjCol [Some ''ped'', Some ''veh'', Some ''ped'']),
      (''timestamp'', IntCol [1700000000, 1700000001, 1700000000]),
      (''id'', ObjCol [Some ''a1'', Some ''a2'', Some ''a1'']),
      (''x'', ObjCol [Some ''1.0'', Some ''bad'', Some ''1.0'']),
      (''y'', FloatCol [Fin 2, Fin 3, Fin 2]),
      (''heading'', FloatCol [NaN, Fin 90, NaN]),
      (''area'', ObjCol [None, Some ''dock'', None]),
      (''vest'', IntCol [1, 0, 1]),
      (''speed'', FloatCol [Fin (1 / 2), NaN, Fin (1 / 2)])]"

text \<open>The same rows under the header \<^verbatim>\<open>label\<close>, with texts as timestamps.\<close>

definition label_frame :: dataframe where
  "label_frame =
     [(''label'', ObjCol [Some ''ped'', Some ''veh'', Some ''ped'']),
      (''time'', ObjCol [Some ''2024-01-01 00:00:00'', Some ''2024-01-01 00:00:01'', Some ''not-a-date'']),
      (''id'', ObjCol [Some ''a1'', Some ''a2'', Some ''a3'']),
      (''x'', ObjCol [Some ''1.0'', Some ''bad'', Some ''4.0'']),
      (''y'', FloatCol [Fin 2, Fin 3, Fin 5]),
      (''heading'', FloatCol [NaN, Fin 90, NaN]),
      (''vest'', IntCol [1, 0, 1]),
      (''speed'', FloatCol [Fin (1 / 2), NaN, Fin (1 / 2)])]"

text \<open>A run of the PostgreSQL script on a file whose second row has no number in \<^verbatim>\<open>x\<close>.\<close>

definition bad_x_run :: pg_world where
  "bad_x_run =
     \<lparr>environ_url = Some ''postgres://env/db'', argv = [''seed_postgres.py''],
      csv_file = Some [three_rows ! 0, bad_x_row], reachable = (\<lambda>u. True),
      pg_table = Some [], response = ''''\<rparr>"

text \<open>A frame with numbers as timestamps, one of them missing.\<close>

definition nan_time_frame :: dataframe where
  "nan_time_frame =
     [(''type'', ObjCol [Some ''ped'', Some ''veh'']),
      (''timestamp'', FloatCol [Fin 1700000000, NaN]),
      (''id'', ObjCol [Some ''a1'', Some ''a2'']),
      (''x'', FloatCol [Fin 1, Fin 3]),
      (''y'', FloatCol [Fin 2, Fin 4]),
      (''heading'', FloatCol [NaN, Fin 90]),
      (''area'', ObjCol [None, Some ''dock'']),
      (''vest'', IntCol [1, 0]),
      (''speed'', FloatCol [Fin (1 / 2), NaN])]"

text \<open>A frame without a timestamp column.\<close>

definition no_time_frame :: dataframe where
  "no_time_frame =
     [(''type'', ObjCol [Some ''ped'']), (''id'', ObjCol [Some ''a1'']),
      (''x'', FloatCol [Fin 1]), (''y'', FloatCol [Fin 2])]"

section \<open>Lemmas on the PostgreSQL loader\<close>

lemma ebind_Inr_iff: "ebind m f = Inr b \<longleftrightarrow> (\<exists>a. m = Inr a \<and> f a = Inr b)"
  by (cases m) (simp_all add: ebind_def)

lemma ebind_Inl_iff: "ebind m f = Inl e \<longleftrightarrow> m = Inl e \<or> (\<exists>a. m = Inr a \<and> f a = Inl e)"
  by (cases m) (simp_all add: ebind_def)

lemma getitem_Inr_iff: "getitem row k = Inr w \<longleftrightarrow> row k = Some w"
  by (simp add: getitem_def split: option.splits)

lemma row_data_fields:
  assumes "row_data L row = Inr d"
  shows "row ''id'' = Some (pg_id d)" and "row ''type'' = Some (pg_class d)"
    and "row ''timestamp'' = Some (pg_t d)"
    and "\<exists>w. row ''with_object'' = Some w \<and> pg_with_object d = with_object_of w"
  using assms unfolding row_data_def ebind_Inr_iff getitem_Inr_iff
  by clarsimp+

lemma valid_rowD: "valid_row L r \<Longrightarrow> \<exists>d. row_data L r = Inr d \<and> pg_accepts L d"
  by (auto simp: valid_row_def split: sum.splits)

lemma chunks_Nil [simp]: "chunks n [] = []"
  by (simp add: chunks.simps)

lemma chunks_short: "xs \<noteq> [] \<Longrightarrow> length xs \<le> n \<Longrightarrow> chunks n xs = [xs]"
  by (subst chunks.simps) (cases xs; auto)

lemma chunks_append: "0 < length b \<Longrightarrow> chunks (length b) (b @ xs) = b # chunks (length b) xs"
  by (subst chunks.simps) auto

lemma concat_chunks: "0 < n \<Longrightarrow> concat (chunks n xs) = xs"
proof (induction n xs rule: chunks.induct)
  case (1 n xs)
  then show ?case by (subst chunks.simps) auto
qed

lemma chunks_lengths: "b \<in> set (chunks n xs) \<Longrightarrow> 0 < length b \<and> length b \<le> n"
proof (induction n xs rule: chunks.induct)
  case (1 n xs)
  have ne: "\<not> (n = 0 \<or> xs = [])"
  proof
    assume "n = 0 \<or> xs = []"
    then have "chunks n xs = []" by (subst chunks.simps) simp
    with "1.prems" show False by simp
  qed
  from "1.prems" ne have "b = take n xs \<or> b \<in> set (chunks n (drop n xs))"
    by (subst (asm) chunks.simps) auto
  then show ?case using ne "1.IH" by auto
qed

lemma chunks_butlast: "b \<in> set (butlast (chunks n xs)) \<Longrightarrow> length b = n"
proof (induction n xs rule: chunks.induct)
  case (1 n xs)
  have ne: "\<not> (n = 0 \<or> xs = [])"
  proof
    assume "n = 0 \<or> xs = []"
    then have "chunks n xs = []" by (subst chunks.simps) simp
    with "1.prems" show False by simp
  qed
  have eq: "chunks n xs = take n xs # chunks n (drop n xs)"
    using ne by (subst chunks.simps) simp
  show ?case
  proof (cases "chunks n (drop n xs) = []")
    case True
    with eq "1.prems" show ?thesis by simp
  next
    case False
    then have "drop n xs \<noteq> []" by auto
    then have "n < length xs" by simp
    with eq False "1.prems" "1.IH"[OF ne] show ?thesis by auto
  qed
qed

text \<open>
  The loop on valid rows, from any state it can be in: the batch in hand is shorter
  than the batch size, and the rows still to come fill it up.
\<close>

lemma load_rows_chunks:
  assumes "\<forall>r \<in> set rows. \<exists>d. row_data L r = Inr d \<and> pg_accepts L d"
    and "list_all (pg_accepts L) batch" and "length batch < bs"
  shows "load_rows L bs rows batch tot =
           (concat (map (\<lambda>b. [Insert b, Commit]) (chunks bs (batch @ map (\<lambda>r. projr (row_data L r)) rows))),
            Inr (tot + length batch + length rows))"
  using assms
proof (induction rows arbitrary: batch tot)
  case Nil
  then show ?case by (cases "batch = []") (simp_all add: execute_batch_def chunks_short)
next
  case (Cons r rows)
  from Cons.prems(1) obtain d where d: "row_data L r = Inr d" "pg_accepts L d" by auto
  have rest: "\<forall>r \<in> set rows. \<exists>d. row_data L r = Inr d \<and> pg_accepts L d"
    using Cons.prems(1) by simp
  show ?case
  proof (cases "bs \<le> length (batch @ [d])")
    case True
    with Cons.prems(3) have len: "length (batch @ [d]) = bs" by simp
    have ok: "execute_batch L (batch @ [d]) = Inr ()"
      using Cons.prems(2) d(2) by (simp add: execute_batch_def)
    have step: "load_rows L bs (r # rows) batch tot =
        (case load_rows L bs rows [] (tot + length (batch @ [d])) of
           (ops, res) \<Rightarrow> (Insert (batch @ [d]) # Commit # ops, res))"
      using True d(1) ok by (simp del: length_append)
    have ih: "load_rows L bs rows [] (tot + bs) =
           (concat (map (\<lambda>b. [Insert b, Commit]) (chunks bs (map (\<lambda>r. projr (row_data L r)) rows))),
            Inr (tot + bs + length rows))"
      using Cons.IH[OF rest, of "[]" "tot + bs"] len by simp
    have ch: "chunks bs ((batch @ [d]) @ map (\<lambda>r. projr (row_data L r)) rows)
               = (batch @ [d]) # chunks bs (map (\<lambda>r. projr (row_data L r)) rows)"
      using chunks_append[of "batch @ [d]" "map (\<lambda>r. projr (row_data L r)) rows"] len by simp
    have tot: "tot + length batch + length (r # rows) = tot + bs + length rows"
      using len by simp
    have arg: "batch @ map (\<lambda>r. projr (row_data L r)) (r # rows)
               = (batch @ [d]) @ map (\<lambda>r. projr (row_data L r)) rows"
      using d(1) by simp
    show ?thesis
      unfolding step len ih arg ch tot by simp
  next
    case False
    then have lt: "length (batch @ [d]) < bs" by simp
    have all: "list_all (pg_accepts L) (batch @ [d])" using Cons.prems(2) d(2) by simp
    show ?thesis using False d Cons.IH[OF rest all lt, of tot] by simp
  qed
qed

lemma run_ops_txns:
  "run_ops (concat (map (\<lambda>b. [Insert b, Commit]) bs)) (c, c) = (c @ concat bs, c @ concat bs)"
  by (induction bs arbitrary: c) simp_all

lemma load_csv_data_valid:
  assumes "list_all (valid_row L) rows"
  shows "load_csv_data L rows =
           (concat (map (\<lambda>b. [Insert b, Commit]) (chunks 1000 (data_of L rows))), Inr (length rows))"
    and "committed (fst (load_csv_data L rows)) = data_of L rows"
proof -
  have v: "\<forall>r \<in> set rows. \<exists>d. row_data L r = Inr d \<and> pg_accepts L d"
    using assms by (auto simp: list_all_iff dest: valid_rowD)
  show l: "load_csv_data L rows =
           (concat (map (\<lambda>b. [Insert b, Commit]) (chunks 1000 (data_of L rows))), Inr (length rows))"
    using load_rows_chunks[OF v, of "[]" 1000 0]
    by (simp add: load_csv_data_def batch_size_def data_of_def)
  show "committed (fst (load_csv_data L rows)) = data_of L rows"
    unfolding l committed_def fst_conv
    using run_ops_txns[of "chunks 1000 (data_of L rows)" "[]"] by (simp add: concat_chunks)
qed

lemma valid_three_rows: "list_all (valid_row decimal_lib) three_rows"
  by code_simp

subsection \<open>A file of more than one batch\<close>

lemma pg_accepts_columns:
  assumes "pg_accepts L d"
  shows "pg_id d \<noteq> None \<and> pg_class d \<noteq> None \<and> pg_t d \<noteq> None \<and>
         (\<forall>v. pg_vest d = Some v \<longrightarrow> - 2147483648 \<le> v \<and> v \<le> 2147483647)"
  using assms by (auto simp: pg_accepts_def)

lemma valid_rows_accepted:
  assumes "list_all (valid_row L) rows"
  shows "list_all (pg_accepts L) (data_of L rows)"
  using assms by (auto simp: list_all_iff data_of_def dest!: valid_rowD)

lemma big_vest_refused:
  "pg_vest (projr (row_data decimal_lib big_vest_row)) = Some 2147483648"
  "\<not> valid_row decimal_lib big_vest_row"
  by (simp_all add: valid_row_def row_data_def getitem_def big_vest_row_def csv_row_of_def decimal_lib_def
      float_of_def int_of_def if_truthy_def truthy_def decimal_int_def unsigned_of_def digit_of_def
      decimal_float_def unsigned_float_def with_object_of_def ebind_def pg_accepts_def)

lemma list_all_replicate: "P x \<Longrightarrow> list_all P (replicate n x)"
  by (simp add: list_all_iff)

lemma data_of_append: "data_of L (xs @ ys) = data_of L xs @ data_of L ys"
  by (simp add: data_of_def)

lemma data_of_replicate: "data_of L (replicate n r) = replicate n (projr (row_data L r))"
  by (simp add: data_of_def)

lemma chunks_full_rest:
  assumes "length xs = n" and "0 < n" and "ys \<noteq> []" and "length ys \<le> n"
  shows "chunks n (xs @ ys) = [xs, ys]"
proof -
  have "chunks n (xs @ ys) = xs # chunks n ys"
    using chunks_append[of xs ys] assms(1,2) by simp
  with chunks_short[OF assms(3,4)] show ?thesis by simp
qed

lemma valid_many_rows: "list_all (valid_row decimal_lib) many_rows"
proof -
  have "valid_row decimal_lib (three_rows ! 0)" by code_simp
  then have "list_all (valid_row decimal_lib) (replicate 999 (three_rows ! 0))"
    by (rule list_all_replicate[of "valid_row decimal_lib" "three_rows ! 0" 999])
  with valid_three_rows show ?thesis
    unfolding many_rows_def list_all_append by (rule conjI[rotated])
qed

lemma length_many_rows: "length many_rows = 1002"
proof -
  have "length three_rows = 3" by (simp add: three_rows_def)
  then show ?thesis unfolding many_rows_def length_append length_replicate by simp
qed

lemma data_of_many_rows:
  "data_of decimal_lib many_rows =
     (replicate 999 (projr (row_data decimal_lib (three_rows ! 0))) @
        [projr (row_data decimal_lib (three_rows ! 0))]) @
     [projr (row_data decimal_lib (three_rows ! 1)), projr (row_data decimal_lib (three_rows ! 0))]"
proof -
  have t: "three_rows = [three_rows ! 0, three_rows ! 1, three_rows ! 0]"
    by (simp add: three_rows_def)
  have "data_of decimal_lib three_rows =
          [projr (row_data decimal_lib (three_rows ! 0)), projr (row_data decimal_lib (three_rows ! 1)),
           projr (row_data decimal_lib (three_rows ! 0))]"
    by (subst t) (simp add: data_of_def)
  then show ?thesis
    unfolding many_rows_def data_of_append data_of_replicate by (simp only: append.simps append_assoc)
qed

lemma chunks_many_rows:
  "chunks 1000 (data_of decimal_lib many_rows) =
     [replicate 999 (projr (row_data decimal_lib (three_rows ! 0))) @
        [projr (row_data decimal_lib (three_rows ! 0))],
      [projr (row_data decimal_lib (three_rows ! 1)), projr (row_data decimal_lib (three_rows ! 0))]]"
proof -
  have l: "length (replicate 999 (projr (row_data decimal_lib (three_rows ! 0))) @
        [projr (row_data decimal_lib (three_rows ! 0))]) = 1000"
    unfolding length_append length_replicate by simp
  show ?thesis
    unfolding data_of_many_rows by (rule chunks_full_rest[OF l]) simp_all
qed

subsection \<open>Lowercasing\<close>

lemma lower_char_iff:
  assumes "\<not> (65 \<le> (of_char d :: nat) \<and> (of_char d :: nat) \<le> 90)"
  shows "lower_char c = d \<longleftrightarrow> same_letter c d"
proof (cases "65 \<le> (of_char c :: nat) \<and> (of_char c :: nat) \<le> 90")
  case True
  then have l: "lower_char c = char_of ((of_char c :: nat) + 32)" by (simp add: lower_char_def)
  have o: "(of_char (char_of ((of_char c :: nat) + 32)) :: nat) = of_char c + 32"
    using True by (simp add: of_char_of)
  have ne: "c \<noteq> d" using True assms by auto
  show ?thesis
  proof
    assume "lower_char c = d"
    with l o have "(of_char d :: nat) = of_char c + 32" by auto
    with True show "same_letter c d" by (simp add: same_letter_def)
  next
    assume "same_letter c d"
    with ne have e: "(of_char c :: nat) + 32 = of_char d" by (simp add: same_letter_def)
    have "char_of ((of_char c :: nat) + 32) = char_of (of_char d :: nat)" using e by simp
    then show "lower_char c = d" using l by simp
  qed
next
  case False
  then have l: "lower_char c = c" by (auto simp add: lower_char_def)
  show ?thesis
  proof
    assume "lower_char c = d"
    with l show "same_letter c d" by (simp add: same_letter_def)
  next
    assume s: "same_letter c d"
    have "c = d"
    proof (rule ccontr)
      assume "c \<noteq> d"
      with s have "97 \<le> (of_char d :: nat) \<and> (of_char d :: nat) \<le> 122 \<and> (of_char c :: nat) + 32 = of_char d"
        by (simp add: same_letter_def)
      then have "65 \<le> (of_char c :: nat) \<and> (of_char c :: nat) \<le> 90" by arith
      with False show False by simp
    qed
    with l show "lower_char c = d" by simp
  qed
qed

lemma lower_spelled_as:
  "no_capital w \<Longrightarrow> lower v = w \<longleftrightarrow> spelled_as v w"
proof (induction v arbitrary: w)
  case Nil
  then show ?case by (auto simp: lower_def spelled_as_def)
next
  case (Cons c v)
  show ?case
  proof (cases w)
    case Nil
    then show ?thesis by (simp add: lower_def spelled_as_def)
  next
    case (Cons d w')
    with Cons.prems have d: "\<not> (65 \<le> (of_char d :: nat) \<and> (of_char d :: nat) \<le> 90)" and w': "no_capital w'"
      by (simp_all add: no_capital_def)
    from Cons.IH[OF w'] lower_char_iff[OF d, of c] Cons show ?thesis
      by (simp add: lower_def spelled_as_def)
  qed
qed

lemma no_capital_words:
  "no_capital ''true''" "no_capital ''t''" "no_capital ''1''" "no_capital ''yes''"
  "no_capital ''false''" "no_capital ''f''" "no_capital ''0''" "no_capital ''no''" "no_capital ''''"
  "no_capital ''class_name''" "no_capital ''label''" "no_capital ''type''"
  by code_simp+

lemma convert_boolean_spelled:
  "(convert_boolean v = Some True \<longleftrightarrow>
      spelled_as v ''true'' \<or> spelled_as v ''t'' \<or> spelled_as v ''1'' \<or> spelled_as v ''yes'')"
  "(convert_boolean v = Some False \<longleftrightarrow>
      spelled_as v ''false'' \<or> spelled_as v ''f'' \<or> spelled_as v ''0'' \<or> spelled_as v ''no'' \<or> v = '''')"
  "(convert_boolean v = None \<longleftrightarrow>
      \<not> (spelled_as v ''true'' \<or> spelled_as v ''t'' \<or> spelled_as v ''1'' \<or> spelled_as v ''yes'' \<or>
         spelled_as v ''false'' \<or> spelled_as v ''f'' \<or> spelled_as v ''0'' \<or> spelled_as v ''no'' \<or> v = ''''))"
proof -
  have e: "lower v = '''' \<longleftrightarrow> v = ''''" by (simp add: lower_def)
  note w = lower_spelled_as[OF no_capital_words(1), of v] lower_spelled_as[OF no_capital_words(2), of v]
    lower_spelled_as[OF no_capital_words(3), of v] lower_spelled_as[OF no_capital_words(4), of v]
    lower_spelled_as[OF no_capital_words(5), of v] lower_spelled_as[OF no_capital_words(6), of v]
    lower_spelled_as[OF no_capital_words(7), of v] lower_spelled_as[OF no_capital_words(8), of v]
  have t: "lower v \<in> {''true'', ''t'', ''1'', ''yes''} \<longleftrightarrow>
      spelled_as v ''true'' \<or> spelled_as v ''t'' \<or> spelled_as v ''1'' \<or> spelled_as v ''yes''"
    unfolding w[symmetric] by blast
  have f: "lower v \<in> {''false'', ''f'', ''0'', ''no'', ''''} \<longleftrightarrow>
      spelled_as v ''false'' \<or> spelled_as v ''f'' \<or> spelled_as v ''0'' \<or> spelled_as v ''no'' \<or> v = ''''"
    unfolding w[symmetric] e[symmetric] by blast
  have d: "\<not> (lower v \<in> {''true'', ''t'', ''1'', ''yes''} \<and> lower v \<in> {''false'', ''f'', ''0'', ''no'', ''''})"
    by auto
  show "(convert_boolean v = Some True \<longleftrightarrow>
      spelled_as v ''true'' \<or> spelled_as v ''t'' \<or> spelled_as v ''1'' \<or> spelled_as v ''yes'')"
    unfolding t[symmetric] by (simp add: convert_boolean_def)
  show "(convert_boolean v = Some False \<longleftrightarrow>
      spelled_as v ''false'' \<or> spelled_as v ''f'' \<or> spelled_as v ''0'' \<or> spelled_as v ''no'' \<or> v = '''')"
    unfolding f[symmetric] using d by (auto simp add: convert_boolean_def)
  have "convert_boolean v = None \<longleftrightarrow>
      \<not> (lower v \<in> {''true'', ''t'', ''1'', ''yes''} \<or> lower v \<in> {''false'', ''f'', ''0'', ''no'', ''''})"
    by (simp add: convert_boolean_def)
  then show "(convert_boolean v = None \<longleftrightarrow>
      \<not> (spelled_as v ''true'' \<or> spelled_as v ''t'' \<or> spelled_as v ''1'' \<or> spelled_as v ''yes'' \<or>
         spelled_as v ''false'' \<or> spelled_as v ''f'' \<or> spelled_as v ''0'' \<or> spelled_as v ''no'' \<or> v = ''''))"
    unfolding t f by blast
qed

section \<open>The claims on the PostgreSQL variant\<close>

text \<open>
  C6. For every sequence of valid rows the loader cuts the records, in order, into
  consecutive batches of exactly 1000, the last one possibly shorter and none empty;
  each batch is one INSERT followed by its own commit; the number returned is the
  number of input rows, and the committed table holds exactly the records. A valid
  row is one whose tuple can be built and is accepted by the server: its \<^verbatim>\<open>id\<close>,
  \<^verbatim>\<open>class\<close> and \<^verbatim>\<open>t\<close> are not null and its \<^verbatim>\<open>vest\<close>, if any, is a 32-bit integer.
\<close>

theorem load_csv_data_batches:
  assumes "list_all (valid_row L) rows"
  shows "load_csv_data L rows =
           (concat (map (\<lambda>b. [Insert b, Commit]) (chunks 1000 (data_of L rows))), Inr (length rows)) \<and>
         concat (chunks 1000 (data_of L rows)) = data_of L rows \<and>
         list_all (\<lambda>b. length b = 1000) (butlast (chunks 1000 (data_of L rows))) \<and>
         list_all (\<lambda>b. 0 < length b \<and> length b \<le> 1000) (chunks 1000 (data_of L rows)) \<and>
         committed (fst (load_csv_data L rows)) = data_of L rows \<and>
         list_all (\<lambda>d. pg_id d \<noteq> None \<and> pg_class d \<noteq> None \<and> pg_t d \<noteq> None \<and>
                       (\<forall>v. pg_vest d = Some v \<longrightarrow> - 2147483648 \<le> v \<and> v \<le> 2147483647))
           (data_of L rows)"
proof -
  have c: "concat (chunks 1000 (data_of L rows)) = data_of L rows"
    by (simp add: concat_chunks)
  have b: "list_all (\<lambda>b. length b = 1000) (butlast (chunks 1000 (data_of L rows)))"
    by (auto simp: list_all_iff dest: chunks_butlast)
  have a: "list_all (\<lambda>b. 0 < length b \<and> length b \<le> 1000) (chunks 1000 (data_of L rows))"
    unfolding list_all_iff using chunks_lengths by blast
  have v: "list_all (\<lambda>d. pg_id d \<noteq> None \<and> pg_class d \<noteq> None \<and> pg_t d \<noteq> None \<and>
                       (\<forall>v. pg_vest d = Some v \<longrightarrow> - 2147483648 \<le> v \<and> v \<le> 2147483647))
           (data_of L rows)"
    using valid_rows_accepted[OF assms] pg_accepts_columns unfolding list_all_iff by blast
  from load_csv_data_valid[OF assms] c b a v show ?thesis by blast
qed

theorem load_csv_data_batches_witness:
  "list_all (valid_row decimal_lib) many_rows \<and>
   length many_rows = 1002 \<and>
   load_csv_data decimal_lib many_rows =
     ([Insert (replicate 999 (projr (row_data decimal_lib (three_rows ! 0))) @
                 [projr (row_data decimal_lib (three_rows ! 0))]), Commit,
       Insert [projr (row_data decimal_lib (three_rows ! 1)),
               projr (row_data decimal_lib (three_rows ! 0))], Commit],
      Inr 1002) \<and>
   length (replicate 999 (projr (row_data decimal_lib (three_rows ! 0))) @
             [projr (row_data decimal_lib (three_rows ! 0))]) = 1000 \<and>
   committed (fst (load_csv_data decimal_lib many_rows)) = data_of decimal_lib many_rows"
proof -
  have l: "length (replicate 999 (projr (row_data decimal_lib (three_rows ! 0))) @
        [projr (row_data decimal_lib (three_rows ! 0))]) = 1000"
    unfolding length_append length_replicate by simp
  have ops: "concat (map (\<lambda>b. [Insert b, Commit]) (chunks 1000 (data_of decimal_lib many_rows))) =
      [Insert (replicate 999 (projr (row_data decimal_lib (three_rows ! 0))) @
                 [projr (row_data decimal_lib (three_rows ! 0))]), Commit,
       Insert [projr (row_data decimal_lib (three_rows ! 1)),
               projr (row_data decimal_lib (three_rows ! 0))], Commit]"
    unfolding chunks_many_rows by (simp only: list.map concat.simps append.simps)
  from load_csv_data_batches[OF valid_many_rows]
  have e: "load_csv_data decimal_lib many_rows =
           (concat (map (\<lambda>b. [Insert b, Commit]) (chunks 1000 (data_of decimal_lib many_rows))),
            Inr (length many_rows))"
    and c: "committed (fst (load_csv_data decimal_lib many_rows)) = data_of decimal_lib many_rows"
    by blast+
  from e have "load_csv_data decimal_lib many_rows =
     ([Insert (replicate 999 (projr (row_data decimal_lib (three_rows ! 0))) @
                 [projr (row_data decimal_lib (three_rows ! 0))]), Commit,
       Insert [projr (row_data decimal_lib (three_rows ! 1)),
               projr (row_data decimal_lib (three_rows ! 0))], Commit],
      Inr 1002)"
    by (simp only: ops length_many_rows)
  with valid_many_rows length_many_rows l c show ?thesis by blast
qed

text \<open>
  C10. \<^verbatim>\<open>convert_boolean\<close> returns \<^verbatim>\<open>True\<close> exactly when the text is one of \<^verbatim>\<open>true\<close>,
  \<^verbatim>\<open>t\<close>, \<^verbatim>\<open>1\<close>, \<^verbatim>\<open>yes\<close> written in small or capital letters (which is what the
  lowercased text being one of them says), \<^verbatim>\<open>False\<close> exactly when it is one of
  \<^verbatim>\<open>false\<close>, \<^verbatim>\<open>f\<close>, \<^verbatim>\<open>0\<close>, \<^verbatim>\<open>no\<close> so written or empty, and \<^verbatim>\<open>None\<close> for every
  other text; the loader calls it on a non-empty \<^verbatim>\<open>with_object\<close> only, so an empty or
  missing field is persisted as \<^verbatim>\<open>None\<close>. Of a file without the column no row is
  persisted.
\<close>

theorem convert_boolean_cases:
  "(convert_boolean v = Some True \<longleftrightarrow>
      spelled_as v ''true'' \<or> spelled_as v ''t'' \<or> spelled_as v ''1'' \<or> spelled_as v ''yes'') \<and>
   (convert_boolean v = Some False \<longleftrightarrow>
      spelled_as v ''false'' \<or> spelled_as v ''f'' \<or> spelled_as v ''0'' \<or> spelled_as v ''no'' \<or> v = '''') \<and>
   (convert_boolean v = None \<longleftrightarrow>
      \<not> (spelled_as v ''true'' \<or> spelled_as v ''t'' \<or> spelled_as v ''1'' \<or> spelled_as v ''yes'' \<or>
         spelled_as v ''false'' \<or> spelled_as v ''f'' \<or> spelled_as v ''0'' \<or> spelled_as v ''no'' \<or> v = '''')) \<and>
   (row_data L row = Inr d \<and>
      (row ''with_object'' = Some None \<or> row ''with_object'' = Some (Some ''''))
      \<longrightarrow> pg_with_object d = None) \<and>
   (row_data L row = Inr d \<and> row ''with_object'' = Some (Some s) \<and> s \<noteq> ''''
      \<longrightarrow> pg_with_object d = convert_boolean s) \<and>
   (row ''with_object'' = None \<longrightarrow> row_data L row \<noteq> Inr d)"
proof -
  have d: "row_data L row = Inr d \<and>
      (row ''with_object'' = Some None \<or> row ''with_object'' = Some (Some ''''))
      \<longrightarrow> pg_with_object d = None"
    using row_data_fields(4)[of L row d] by (auto simp: with_object_of_def truthy_def)
  have e: "row_data L row = Inr d \<and> row ''with_object'' = Some (Some s) \<and> s \<noteq> ''''
      \<longrightarrow> pg_with_object d = convert_boolean s"
    using row_data_fields(4)[of L row d] by (auto simp: with_object_of_def truthy_def)
  have f: "row ''with_object'' = None \<longrightarrow> row_data L row \<noteq> Inr d"
    using row_data_fields(4)[of L row d] by auto
  from convert_boolean_spelled[of v] d e f show ?thesis by blast
qed

theorem convert_boolean_cases_witness:
  "convert_boolean ''TRUE'' = Some True \<and>
   convert_boolean ''Yes'' = Some True \<and>
   convert_boolean ''No'' = Some False \<and>
   convert_boolean '''' = Some False \<and>
   convert_boolean ''maybe'' = None \<and>
   capital_row ''with_object'' = Some (Some ''TRUE'') \<and>
   pg_with_object (projr (row_data decimal_lib capital_row)) = Some True \<and>
   (three_rows ! 0) ''with_object'' = Some (Some '''') \<and>
   pg_with_object (projr (row_data decimal_lib (three_rows ! 0))) = None \<and>
   no_with_object_row ''with_object'' = None \<and>
   row_data decimal_lib no_with_object_row \<noteq> Inr (projr (row_data decimal_lib (three_rows ! 0)))"
proof -
  have s1: "spelled_as ''TRUE'' ''true''" by code_simp
  have s2: "spelled_as ''Yes'' ''yes''" by code_simp
  have s3: "spelled_as ''No'' ''no''" by code_simp
  have s4: "\<not> (spelled_as ''maybe'' ''true'' \<or> spelled_as ''maybe'' ''t'' \<or> spelled_as ''maybe'' ''1'' \<or>
      spelled_as ''maybe'' ''yes'' \<or> spelled_as ''maybe'' ''false'' \<or> spelled_as ''maybe'' ''f'' \<or>
      spelled_as ''maybe'' ''0'' \<or> spelled_as ''maybe'' ''no'' \<or> ''maybe'' = '''')"
    by code_simp
  from convert_boolean_cases[of "''TRUE''" decimal_lib capital_row
      "projr (row_data decimal_lib capital_row)" "''TRUE''"] s1
  have c1: "convert_boolean ''TRUE'' = Some True" by blast
  from convert_boolean_cases[of "''Yes''" decimal_lib capital_row
      "projr (row_data decimal_lib capital_row)" "''TRUE''"] s2
  have c2: "convert_boolean ''Yes'' = Some True" by blast
  from convert_boolean_cases[of "''No''" decimal_lib capital_row
      "projr (row_data decimal_lib capital_row)" "''TRUE''"] s3
  have c3: "convert_boolean ''No'' = Some False" by blast
  from convert_boolean_cases[of "''''" decimal_lib capital_row
      "projr (row_data decimal_lib capital_row)" "''TRUE''"]
  have c4: "convert_boolean '''' = Some False" by blast
  from convert_boolean_cases[of "''maybe''" decimal_lib capital_row
      "projr (row_data decimal_lib capital_row)" "''TRUE''"] s4
  have c5: "convert_boolean ''maybe'' = None" by blast
  have w2: "no_with_object_row ''with_object'' = None"
    by code_simp
  from convert_boolean_cases[of "''true''" decimal_lib no_with_object_row
      "projr (row_data decimal_lib (three_rows ! 0))" "''''"] w2
  have n: "row_data decimal_lib no_with_object_row \<noteq> Inr (projr (row_data decimal_lib (three_rows ! 0)))"
    by blast
  have r0: "row_data decimal_lib (three_rows ! 0) = Inr (projr (row_data decimal_lib (three_rows ! 0)))"
    by code_simp
  have w0: "(three_rows ! 0) ''with_object'' = Some (Some '''')"
    by code_simp
  have r1: "row_data decimal_lib capital_row = Inr (projr (row_data decimal_lib capital_row))"
    by code_simp
  have w1: "capital_row ''with_object'' = Some (Some ''TRUE'')"
    by code_simp
  have ne: "''TRUE'' \<noteq> ''''" by simp
  from convert_boolean_cases[of "''TRUE''" decimal_lib "three_rows ! 0"
      "projr (row_data decimal_lib (three_rows ! 0))" "''''"] r0 w0
  have p0: "pg_with_object (projr (row_data decimal_lib (three_rows ! 0))) = None"
    by blast
  from convert_boolean_cases[of "''TRUE''" decimal_lib capital_row
      "projr (row_data decimal_lib capital_row)" "''TRUE''"] r1 w1 ne c1
  have p1: "pg_with_object (projr (row_data decimal_lib capital_row)) = Some True"
    by simp
  from c1 c2 c3 c4 c5 w1 p1 w0 p0 w2 n show ?thesis by blast
qed

text \<open>
  C9, as the claim states it, fails: with the environment variable set and an argument
  given, the run connects to the URL of the variable, not to the argument.
\<close>

theorem main_pg_argument_counterexample:
  "connected_to (main_pg decimal_lib env_and_arg) = Some ''postgres://env/db'' \<and>
   argv env_and_arg ! 1 = ''postgres://arg/db''"
  by code_simp

text \<open>
  C9, amended. The connection string is the environment variable when it is set and
  not empty; the first argument is the fallback when it is not. When neither gives a
  non-empty string, the run ends with exit status 1, without a connection and without a
  change to the table. Whenever the run opens a connection, it is to that string.
\<close>

theorem database_url_precedence:
  "(truthy env \<longrightarrow> database_url env args = env) \<and>
   (\<not> truthy env \<and> 1 < length args \<longrightarrow> database_url env args = Some (args ! 1)) \<and>
   (\<not> truthy env \<and> length args \<le> 1 \<longrightarrow> \<not> truthy (database_url env args)) \<and>
   (\<not> truthy (database_url (environ_url W) (argv W)) \<longrightarrow>
      exit_status (main_pg L W) = 1 \<and> connected_to (main_pg L W) = None \<and>
      table_after (main_pg L W) = pg_table W) \<and>
   (connected_to (main_pg L W) = Some u \<longrightarrow> database_url (environ_url W) (argv W) = Some u)"
proof -
  have a: "truthy env \<longrightarrow> database_url env args = env"
    by (simp add: database_url_def)
  have b: "\<not> truthy env \<and> 1 < length args \<longrightarrow> database_url env args = Some (args ! 1)"
    by (simp add: database_url_def)
  have c: "\<not> truthy env \<and> length args \<le> 1 \<longrightarrow> \<not> truthy (database_url env args)"
    by (simp add: database_url_def)
  have d: "\<not> truthy (database_url (environ_url W) (argv W)) \<longrightarrow>
      exit_status (main_pg L W) = 1 \<and> connected_to (main_pg L W) = None \<and>
      table_after (main_pg L W) = pg_table W"
    by (simp add: main_pg_def Let_def)
  have e: "connected_to (main_pg L W) = Some u \<longrightarrow> database_url (environ_url W) (argv W) = Some u"
    by (auto simp: main_pg_def Let_def split: option.splits if_splits prod.splits)
  from a b c d e show ?thesis by blast
qed

theorem database_url_precedence_witness:
  "database_url (environ_url env_and_arg) (argv env_and_arg) = Some ''postgres://env/db'' \<and>
   database_url (environ_url arg_only) (argv arg_only) = Some ''postgres://arg/db'' \<and>
   connected_to (main_pg decimal_lib arg_only) = Some ''postgres://arg/db'' \<and>
   exit_status (main_pg decimal_lib no_url) = 1 \<and>
   connected_to (main_pg decimal_lib no_url) = None \<and>
   table_after (main_pg decimal_lib no_url) = pg_table no_url"
proof -
  have t1: "truthy (environ_url env_and_arg)" and e1: "environ_url env_and_arg = Some ''postgres://env/db''"
    by (simp_all add: env_and_arg_def truthy_def)
  have t2: "\<not> truthy (environ_url arg_only)" "1 < length (argv arg_only)"
    and e2: "argv arg_only ! 1 = ''postgres://arg/db''"
    by (simp_all add: arg_only_def truthy_def)
  have c2: "connected_to (main_pg decimal_lib arg_only) = Some ''postgres://arg/db''"
    by code_simp
  have t3: "\<not> truthy (environ_url no_url)" "length (argv no_url) \<le> 1"
    by (simp_all add: no_url_def truthy_def)
  from database_url_precedence[of "environ_url env_and_arg" "argv env_and_arg" no_url decimal_lib
      "''postgres://arg/db''"] t1 e1
  have a: "database_url (environ_url env_and_arg) (argv env_and_arg) = Some ''postgres://env/db''"
    by simp
  from database_url_precedence[of "environ_url arg_only" "argv arg_only" arg_only decimal_lib
      "''postgres://arg/db''"] t2 e2 c2
  have b: "database_url (environ_url arg_only) (argv arg_only) = Some ''postgres://arg/db''"
    by simp
  from database_url_precedence[of "environ_url no_url" "argv no_url" no_url decimal_lib
      "''postgres://arg/db''"] t3
  have c: "exit_status (main_pg decimal_lib no_url) = 1 \<and>
           connected_to (main_pg decimal_lib no_url) = None \<and>
           table_after (main_pg decimal_lib no_url) = pg_table no_url"
    by blast
  from a b c2 c show ?thesis by blast
qed

section \<open>Lemmas on the frames\<close>

text \<open>Evaluating the concrete runs: the definitions to unfold.\<close>

lemma lower_names:
  "lower ''type'' = ''type''" "lower ''timestamp'' = ''timestamp''" "lower ''id'' = ''id''"
  "lower ''x'' = ''x''" "lower ''y'' = ''y''" "lower ''heading'' = ''heading''"
  "lower ''area'' = ''area''" "lower ''vest'' = ''vest''" "lower ''speed'' = ''speed''"
  "lower ''label'' = ''label''" "lower ''time'' = ''time''" "lower ''t'' = ''t''"
  "lower ''class'' = ''class''"
  by code_simp+

lemmas frame_defs =
  columns_def getcol_def nrows_def setcol_def infer_timestamp_col_def
  finite_values_def cut_fraction_def int64_of_def wrap_int64_def series_max_def factor_of_def
  unit_of_def to_datetime_unit_def to_datetime_coerce_def rename_columns_def missing_cols_def
  str_of_cell_def area_column_def handle_area_def keep_def dropna_def
  set_timestamp_def clean_def drop_invalid_def coerce_frame_def process_dataframe_def
  create_schema_def backend_indexes_def select_def empty_like_def to_sql_def
  main_backend_def minimal_frame_def main_minimal_def
  row_count_def class_count_def instants_def min_t_def max_t_def natural_keys_def
  ebind_def Let_def

lemmas example_defs =
  example_pandas_def epoch_instant_def text_instant_def timestamp_shape_def days_from_civil_def
  unsigned_of_def digit_of_def decimal_float_def unsigned_float_def example_str_def
  lower_names

lemma columns_rename:
  "columns (rename_columns aliases df) = map (\<lambda>c. if lower c \<in> set aliases then ''class'' else c) (columns df)"
  by (simp add: columns_def rename_columns_def case_prod_unfold comp_def)

lemma columns_setcol_present:
  "n \<in> set (columns df) \<Longrightarrow> columns (setcol df n c) = columns df"
  by (induction df) (auto simp: setcol_def columns_def)

lemma columns_setcol_new:
  "n \<notin> set (columns df) \<Longrightarrow> columns (setcol df n c) = columns df @ [n]"
  by (simp add: setcol_def columns_def)

lemma columns_setcol: "set (columns (setcol df n c)) = insert n (set (columns df))"
  by (cases "n \<in> set (columns df)") (auto simp: columns_setcol_present columns_setcol_new)



lemma first_candidate_find:
  "first_candidate cands cols =
     (case find (\<lambda>c. c \<in> set cols) cands of None \<Rightarrow> Inl KeyError | Some c \<Rightarrow> Inr c)"
  by (induction cands) simp_all

lemma set_timestamp_no_column:
  assumes "infer_timestamp_col df = Inl e"
  shows "set_timestamp P df = Inl e"
  using assms by (simp add: set_timestamp_def ebind_def)

lemma main_backend_no_column:
  assumes "infer_timestamp_col df = Inl e"
  shows "main_backend P (Inr df) db = (1, db)"
  using set_timestamp_no_column[OF assms, of P]
  by (simp add: main_backend_def process_dataframe_def coerce_frame_def ebind_def)

lemma main_minimal_no_column:
  assumes "infer_timestamp_col df = Inl e"
  shows "main_minimal P (Inr df) db = (Some e, db)"
  using set_timestamp_no_column[OF assms, of P]
  by (simp add: main_minimal_def minimal_frame_def ebind_def)

lemma backend_type_frame:
  "main_backend example_pandas (Inr type_frame) None =
     (0, Some \<lparr>primary_key = [], indexes = [],
         frame =
           [(''id'', ObjCol [Some ''a1'', Some ''a1'']),
            (''class'', ObjCol [Some ''ped'', Some ''ped'']),
            (''t'', TimeCol [Some 1700000000000000000, Some 1700000000000000000]),
            (''x'', FloatCol [Fin 1, Fin 1]),
            (''y'', FloatCol [Fin 2, Fin 2]),
            (''heading'', FloatCol [NaN, NaN]), (''vest'', IntCol [1, 1]),
            (''speed'', FloatCol [Fin (1 / 2), Fin (1 / 2)]),
            (''area'', ObjCol [None, None])]\<rparr>)"
  by (simp add: frame_defs example_defs type_frame_def)





lemma pg_arg_only_run:
  "main_pg decimal_lib arg_only =
     \<lparr>exit_status = 0, connected_to = Some ''postgres://arg/db'',
      table_after = Some (data_of decimal_lib three_rows)\<rparr>"
  using load_csv_data_valid[OF valid_three_rows]
  by (simp add: main_pg_def arg_only_def database_url_def truthy_def)

lemma series_max_Max: "vs \<noteq> [] \<Longrightarrow> series_max vs = Some (Max (set vs))"
proof (cases vs)
  case Nil
  assume "vs \<noteq> []"
  with Nil show ?thesis by simp
next
  case (Cons a list)
  then show ?thesis unfolding series_max_def by (simp only: list.case Max.set_eq_fold)
qed

lemma unit_of_factor:
  "unit_of (factor_of vs) = (if vs \<noteq> [] \<and> 10000000000 < Max (set vs) then Milliseconds else Seconds)"
proof (cases "vs = []")
  case True
  then show ?thesis by (simp add: factor_of_def series_max_def unit_of_def)
next
  case False
  then show ?thesis by (simp add: factor_of_def series_max_Max unit_of_def)
qed

lemma cut_fraction_threshold: "10000000000 < cut_fraction q \<longleftrightarrow> 10000000001 \<le> q"
proof (cases "0 \<le> q")
  case True
  have "10000000000 < \<lfloor>q\<rfloor> \<longleftrightarrow> 10000000001 \<le> \<lfloor>q\<rfloor>" by linarith
  also have "\<dots> \<longleftrightarrow> of_int 10000000001 \<le> q" by (rule le_floor_iff)
  finally show ?thesis using True by (simp add: cut_fraction_def)
next
  case False
  then have "\<lceil>q\<rceil> \<le> 0" by (simp add: ceiling_le_iff)
  with False show ?thesis by (simp add: cut_fraction_def)
qed

lemma cut_fraction_range:
  assumes "- (2 ^ 63) \<le> q" and "q < 2 ^ 63"
  shows "- (2 ^ 63) \<le> cut_fraction q \<and> cut_fraction q < 2 ^ 63"
proof (cases "0 \<le> q")
  case True
  have "\<lfloor>q\<rfloor> < 2 ^ 63" using assms(2) by (simp add: floor_less_iff)
  moreover have "0 \<le> \<lfloor>q\<rfloor>" using True by simp
  ultimately show ?thesis using True by (simp add: cut_fraction_def)
next
  case False
  have "- (2 ^ 63) \<le> \<lceil>q\<rceil>" using assms(1) by (simp add: le_ceiling_iff)
  moreover have "\<lceil>q\<rceil> \<le> 0" using False by (simp add: ceiling_le_iff)
  ultimately show ?thesis using False by (simp add: cut_fraction_def)
qed

lemma int64_threshold:
  assumes "qs \<noteq> []" and "\<forall>q \<in> set qs. - (2 ^ 63) \<le> q \<and> q < 2 ^ 63"
  shows "10000000000 < Max (set (map (int64_of P) qs)) \<longleftrightarrow> 10000000001 \<le> Max (set qs)"
proof -
  have eq: "\<And>q. q \<in> set qs \<Longrightarrow> int64_of P q = cut_fraction q"
    using assms(2) cut_fraction_range by (simp add: int64_of_def)
  have "10000000000 < Max (set (map (int64_of P) qs)) \<longleftrightarrow> (\<exists>q \<in> set qs. 10000000000 < int64_of P q)"
    using assms(1) by (simp add: Max_gr_iff)
  also have "\<dots> \<longleftrightarrow> (\<exists>q \<in> set qs. 10000000001 \<le> q)"
    using eq cut_fraction_threshold by auto
  also have "\<dots> \<longleftrightarrow> 10000000001 \<le> Max (set qs)"
    using assms(1) by (simp add: Max_ge_iff)
  finally show ?thesis .
qed

lemma wrap_int64_int64: "- (2 ^ 63) \<le> v \<Longrightarrow> v < 2 ^ 63 \<Longrightarrow> wrap_int64 v = v"
  by (simp add: wrap_int64_def)

lemma wrap_int64_uint64: "2 ^ 63 \<le> v \<Longrightarrow> v < 2 ^ 64 \<Longrightarrow> wrap_int64 v = v - 2 ^ 64"
proof -
  assume a: "2 ^ 63 \<le> v" "v < 2 ^ 64"
  have "(v + 2 ^ 63) mod 2 ^ 64 = (v + 2 ^ 63 - 2 ^ 64) mod 2 ^ 64"
    by (metis minus_mod_self2)
  also have "\<dots> = v + 2 ^ 63 - 2 ^ 64"
    using a by (intro mod_pos_pos_trivial) simp_all
  finally show ?thesis by (simp add: wrap_int64_def)
qed

section \<open>The claims on the column resolver and the timestamps\<close>

text \<open>
  C8. The timestamp column is the first of \<^verbatim>\<open>t\<close>, \<^verbatim>\<open>timestamp\<close>, \<^verbatim>\<open>time\<close> that is a
  column of the frame; with one of them present the resolver returns that first match,
  with none it raises KeyError, and both SQLite scripts then end without a change to
  the database (the backend script with exit status 1).
\<close>

theorem infer_timestamp_col_first_match:
  "infer_timestamp_col df =
     (case find (\<lambda>c. c \<in> set (columns df)) [''t'', ''timestamp'', ''time''] of
        None \<Rightarrow> Inl KeyError | Some c \<Rightarrow> Inr c) \<and>
   (''t'' \<in> set (columns df) \<longrightarrow> infer_timestamp_col df = Inr ''t'') \<and>
   (''t'' \<notin> set (columns df) \<and> ''timestamp'' \<in> set (columns df)
      \<longrightarrow> infer_timestamp_col df = Inr ''timestamp'') \<and>
   (''t'' \<notin> set (columns df) \<and> ''timestamp'' \<notin> set (columns df) \<and> ''time'' \<in> set (columns df)
      \<longrightarrow> infer_timestamp_col df = Inr ''time'') \<and>
   (''t'' \<notin> set (columns df) \<and> ''timestamp'' \<notin> set (columns df) \<and> ''time'' \<notin> set (columns df)
      \<longrightarrow> infer_timestamp_col df = Inl KeyError \<and>
          main_backend P (Inr df) db = (1, db) \<and>
          main_minimal P (Inr df) db = (Some KeyError, db))"
proof -
  have a: "infer_timestamp_col df =
     (case find (\<lambda>c. c \<in> set (columns df)) [''t'', ''timestamp'', ''time''] of
        None \<Rightarrow> Inl KeyError | Some c \<Rightarrow> Inr c)"
    unfolding infer_timestamp_col_def by (rule first_candidate_find)
  have b: "''t'' \<in> set (columns df) \<longrightarrow> infer_timestamp_col df = Inr ''t''"
    by (simp add: infer_timestamp_col_def)
  have c: "''t'' \<notin> set (columns df) \<and> ''timestamp'' \<in> set (columns df)
      \<longrightarrow> infer_timestamp_col df = Inr ''timestamp''"
    by (simp add: infer_timestamp_col_def)
  have d: "''t'' \<notin> set (columns df) \<and> ''timestamp'' \<notin> set (columns df) \<and> ''time'' \<in> set (columns df)
      \<longrightarrow> infer_timestamp_col df = Inr ''time''"
    by (simp add: infer_timestamp_col_def)
  have e: "''t'' \<notin> set (columns df) \<and> ''timestamp'' \<notin> set (columns df) \<and> ''time'' \<notin> set (columns df)
      \<longrightarrow> infer_timestamp_col df = Inl KeyError \<and>
          main_backend P (Inr df) db = (1, db) \<and>
          main_minimal P (Inr df) db = (Some KeyError, db)"
  proof
    assume h: "''t'' \<notin> set (columns df) \<and> ''timestamp'' \<notin> set (columns df) \<and> ''time'' \<notin> set (columns df)"
    then have i: "infer_timestamp_col df = Inl KeyError"
      by (simp add: infer_timestamp_col_def)
    from i main_backend_no_column[OF i] main_minimal_no_column[OF i]
    show "infer_timestamp_col df = Inl KeyError \<and>
          main_backend P (Inr df) db = (1, db) \<and>
          main_minimal P (Inr df) db = (Some KeyError, db)" by blast
  qed
  from a b c d e show ?thesis by blast
qed

theorem infer_timestamp_col_first_match_witness:
  "infer_timestamp_col type_frame = Inr ''timestamp'' \<and>
   infer_timestamp_col label_frame = Inr ''time'' \<and>
   infer_timestamp_col no_time_frame = Inl KeyError \<and>
   main_backend example_pandas (Inr no_time_frame) None = (1, None) \<and>
   main_minimal example_pandas (Inr no_time_frame) None = (Some KeyError, None)"
proof -
  have c1: "''t'' \<notin> set (columns type_frame) \<and> ''timestamp'' \<in> set (columns type_frame)"
    by (simp add: type_frame_def columns_def)
  have c2: "''t'' \<notin> set (columns label_frame) \<and> ''timestamp'' \<notin> set (columns label_frame) \<and>
            ''time'' \<in> set (columns label_frame)"
    by (simp add: label_frame_def columns_def)
  have c3: "''t'' \<notin> set (columns no_time_frame) \<and> ''timestamp'' \<notin> set (columns no_time_frame) \<and>
            ''time'' \<notin> set (columns no_time_frame)"
    by (simp add: no_time_frame_def columns_def)
  from infer_timestamp_col_first_match[of type_frame example_pandas None] c1
  have a: "infer_timestamp_col type_frame = Inr ''timestamp''" by blast
  from infer_timestamp_col_first_match[of label_frame example_pandas None] c2
  have b: "infer_timestamp_col label_frame = Inr ''time''" by blast
  from infer_timestamp_col_first_match[of no_time_frame example_pandas None] c3
  have c: "infer_timestamp_col no_time_frame = Inl KeyError \<and>
   main_backend example_pandas (Inr no_time_frame) None = (1, None) \<and>
   main_minimal example_pandas (Inr no_time_frame) None = (Some KeyError, None)" by blast
  from a b c show ?thesis by blast
qed




text \<open>
  C3, as the claim states it, fails: a completed PostgreSQL load and a completed
  backend SQLite load both leave two records with the same \<^verbatim>\<open>id\<close> and timestamp in
  the table, and the table of the SQLite load has no primary key.
\<close>

theorem natural_key_counterexample:
  "exit_status (main_pg decimal_lib arg_only) = 0 \<and>
   \<not> distinct (map (\<lambda>d. (pg_id d, pg_t d)) (the (table_after (main_pg decimal_lib arg_only)))) \<and>
   fst (main_backend example_pandas (Inr type_frame) None) = 0 \<and>
   primary_key (the (snd (main_backend example_pandas (Inr type_frame) None))) = [] \<and>
   \<not> distinct (natural_keys (snd (main_backend example_pandas (Inr type_frame) None)))"
proof -
  have "\<not> distinct (map (\<lambda>d. (pg_id d, pg_t d)) (data_of decimal_lib three_rows))"
    by code_simp
  then show ?thesis
    unfolding pg_arg_only_run backend_type_frame by (simp add: natural_keys_def getcol_def)
qed

text \<open>
  C3, amended. \<^verbatim>\<open>create_schema\<close> declares the primary key \<^verbatim>\<open>(id, t)\<close> on the table it
  creates. The PostgreSQL table has no key: a load of valid rows persists the pair of
  \<^verbatim>\<open>id\<close> and timestamp of every input row, in order, repeated pairs included.
\<close>

theorem natural_key_declared:
  "primary_key (the (create_schema None)) = [''id'', ''t''] \<and>
   (list_all (valid_row L) rows \<longrightarrow>
      map (\<lambda>d. (pg_id d, pg_t d)) (committed (fst (load_csv_data L rows)))
        = map (\<lambda>r. (the (r ''id''), the (r ''timestamp''))) rows)"
proof -
  have a: "primary_key (the (create_schema None)) = [''id'', ''t'']"
    by (simp add: create_schema_def)
  have b: "list_all (valid_row L) rows \<longrightarrow>
      map (\<lambda>d. (pg_id d, pg_t d)) (committed (fst (load_csv_data L rows)))
        = map (\<lambda>r. (the (r ''id''), the (r ''timestamp''))) rows"
  proof
    assume v: "list_all (valid_row L) rows"
    have "\<forall>r \<in> set rows. (pg_id (projr (row_data L r)), pg_t (projr (row_data L r)))
            = (the (r ''id''), the (r ''timestamp''))"
    proof
      fix r assume "r \<in> set rows"
      with v have "valid_row L r" by (simp add: list_all_iff)
      then obtain d where d: "row_data L r = Inr d" using valid_rowD by blast
      from row_data_fields(1,3)[OF d] d
      show "(pg_id (projr (row_data L r)), pg_t (projr (row_data L r)))
            = (the (r ''id''), the (r ''timestamp''))" by simp
    qed
    then show "map (\<lambda>d. (pg_id d, pg_t d)) (committed (fst (load_csv_data L rows)))
        = map (\<lambda>r. (the (r ''id''), the (r ''timestamp''))) rows"
      unfolding load_csv_data_valid(2)[OF v] data_of_def by simp
  qed
  from a b show ?thesis by blast
qed

theorem natural_key_declared_witness:
  "list_all (valid_row decimal_lib) three_rows \<and>
   map (\<lambda>d. (pg_id d, pg_t d)) (committed (fst (load_csv_data decimal_lib three_rows)))
     = [(Some ''a1'', Some ''2024-01-01 00:00:00''), (Some ''a2'', Some ''2024-01-01 00:00:01''),
        (Some ''a1'', Some ''2024-01-01 00:00:00'')]"
proof -
  have k: "map (\<lambda>r. (the (r ''id''), the (r ''timestamp''))) three_rows
     = [(Some ''a1'', Some ''2024-01-01 00:00:00''), (Some ''a2'', Some ''2024-01-01 00:00:01''),
        (Some ''a1'', Some ''2024-01-01 00:00:00'')]"
    by code_simp
  from natural_key_declared[of decimal_lib three_rows] valid_three_rows k
  show ?thesis by simp
qed

text \<open>
  C1, as the claim states it, fails on a float64 column and on a uint64 column. The
  maximum 10000000000.5 of the float64 column exceeds \<open>10^10\<close>, and the values are read
  as seconds (which is out of the range of a timestamp), not as milliseconds. The
  maximum \<open>2^63\<close> of the uint64 column exceeds \<open>10^10\<close>, and the values are read as
  seconds: \<^verbatim>\<open>astype('int64')\<close> wraps \<open>2^63\<close> to \<open>-2^63\<close>, so the maximum it sees is 5.
\<close>

theorem epoch_unit_counterexample:
  "(10000000000 :: rat) < 20000000001 / 2 \<and>
   unit_of (factor_of (map (int64_of example_pandas) [20000000001 / 2])) = Seconds \<and>
   normalize_timestamp example_pandas (FloatCol [Fin (20000000001 / 2)]) =
     to_datetime_unit example_pandas Seconds [20000000001 / 2] \<and>
   to_datetime_unit example_pandas Seconds [20000000001 / 2] = Inl OutOfBoundsDatetime \<and>
   to_datetime_unit example_pandas Milliseconds [20000000001 / 2] =
     Inr (TimeCol [Some 10000000000500000]) \<and>
   (10000000000 :: int) < Max (set [9223372036854775808, 5]) \<and>
   map wrap_int64 [9223372036854775808, 5] = [- 9223372036854775808, 5] \<and>
   unit_of (factor_of (map wrap_int64 [9223372036854775808, 5])) = Seconds \<and>
   normalize_timestamp example_pandas (IntCol [9223372036854775808, 5]) =
     to_datetime_unit example_pandas Seconds [9223372036854775808, 5]"
  by (simp add: frame_defs example_defs)

text \<open>
  C1, amended. For a numeric timestamp column the unit is the same for every value and
  is decided by the maximum of the values as \<^verbatim>\<open>astype('int64')\<close> casts them: milliseconds
  if that maximum exceeds \<open>10^10\<close>, seconds otherwise. The cast leaves an int64 value as
  it is, so for a column of int64 values it is the maximum of the column that decides;
  it wraps a uint64 value from \<open>2^63\<close> on to the value less \<open>2^64\<close>, so a column of such
  values only is read as seconds; it cuts the fraction of a finite float64 value off,
  so for a float64 column of finite values within the range of int64 the maximum cast
  exceeds \<open>10^10\<close> exactly when the maximum of the column is at least \<open>10^10 + 1\<close>; and
  a float64 column with a NaN or an infinity is not converted, the cast raises.
\<close>

theorem epoch_unit_uniform:
  "normalize_timestamp P (IntCol vs) =
     to_datetime_unit P
       (if vs \<noteq> [] \<and> 10000000000 < Max (set (map wrap_int64 vs)) then Milliseconds else Seconds)
       (map of_int vs) \<and>
   ((\<forall>v \<in> set vs. - (2 ^ 63) \<le> v \<and> v < 2 ^ 63) \<longrightarrow>
      map wrap_int64 vs = vs \<and>
      normalize_timestamp P (IntCol vs) =
        to_datetime_unit P (if vs \<noteq> [] \<and> 10000000000 < Max (set vs) then Milliseconds else Seconds)
          (map of_int vs)) \<and>
   ((\<forall>v \<in> set vs. 2 ^ 63 \<le> v \<and> v < 2 ^ 64) \<longrightarrow>
      map wrap_int64 vs = map (\<lambda>v. v - 2 ^ 64) vs \<and>
      normalize_timestamp P (IntCol vs) = to_datetime_unit P Seconds (map of_int vs)) \<and>
   (finite_values fs = Some qs \<longrightarrow>
      normalize_timestamp P (FloatCol fs) =
        to_datetime_unit P
          (if qs \<noteq> [] \<and> 10000000000 < Max (set (map (int64_of P) qs)) then Milliseconds else Seconds) qs) \<and>
   (finite_values fs = None \<longrightarrow> normalize_timestamp P (FloatCol fs) = Inl IntCastingNaNError) \<and>
   (qs \<noteq> [] \<and> (\<forall>q \<in> set qs. - (2 ^ 63) \<le> q \<and> q < 2 ^ 63) \<longrightarrow>
      (10000000000 < Max (set (map (int64_of P) qs)) \<longleftrightarrow> 10000000001 \<le> Max (set qs))) \<and>
   (to_datetime_unit P u qs = Inr col \<longrightarrow> col = TimeCol (map (to_datetime_epoch P u) qs))"
proof -
  have a: "normalize_timestamp P (IntCol vs) =
     to_datetime_unit P
       (if vs \<noteq> [] \<and> 10000000000 < Max (set (map wrap_int64 vs)) then Milliseconds else Seconds)
       (map of_int vs)"
    by (simp add: unit_of_factor)
  have a1: "(\<forall>v \<in> set vs. - (2 ^ 63) \<le> v \<and> v < 2 ^ 63) \<longrightarrow>
      map wrap_int64 vs = vs \<and>
      normalize_timestamp P (IntCol vs) =
        to_datetime_unit P (if vs \<noteq> [] \<and> 10000000000 < Max (set vs) then Milliseconds else Seconds)
          (map of_int vs)"
  proof
    assume r: "\<forall>v \<in> set vs. - (2 ^ 63) \<le> v \<and> v < 2 ^ 63"
    have "map wrap_int64 vs = map (\<lambda>v. v) vs"
      by (rule map_cong) (use r wrap_int64_int64 in auto)
    then have m: "map wrap_int64 vs = vs" by simp
    from a m show "map wrap_int64 vs = vs \<and>
      normalize_timestamp P (IntCol vs) =
        to_datetime_unit P (if vs \<noteq> [] \<and> 10000000000 < Max (set vs) then Milliseconds else Seconds)
          (map of_int vs)"
      by simp
  qed
  have a2: "(\<forall>v \<in> set vs. 2 ^ 63 \<le> v \<and> v < 2 ^ 64) \<longrightarrow>
      map wrap_int64 vs = map (\<lambda>v. v - 2 ^ 64) vs \<and>
      normalize_timestamp P (IntCol vs) = to_datetime_unit P Seconds (map of_int vs)"
  proof
    assume r: "\<forall>v \<in> set vs. 2 ^ 63 \<le> v \<and> v < 2 ^ 64"
    have m: "map wrap_int64 vs = map (\<lambda>v. v - 2 ^ 64) vs"
      by (rule map_cong) (use r wrap_int64_uint64 in auto)
    have "\<not> (vs \<noteq> [] \<and> 10000000000 < Max (set (map wrap_int64 vs)))"
    proof
      assume h: "vs \<noteq> [] \<and> 10000000000 < Max (set (map wrap_int64 vs))"
      then have "Max (set (map wrap_int64 vs)) \<in> set (map wrap_int64 vs)"
        by (intro Max_in) simp_all
      then obtain v where v: "v \<in> set vs" "Max (set (map wrap_int64 vs)) = wrap_int64 v"
        by auto
      from r v(1) have "wrap_int64 v < 0" using wrap_int64_uint64[of v] by simp
      with h v(2) show False by simp
    qed
    then have "(if vs \<noteq> [] \<and> 10000000000 < Max (set (map wrap_int64 vs))
                then Milliseconds else Seconds) = Seconds"
      by (simp only: if_False)
    with a have "normalize_timestamp P (IntCol vs) = to_datetime_unit P Seconds (map of_int vs)"
      by (simp only:)
    with m show "map wrap_int64 vs = map (\<lambda>v. v - 2 ^ 64) vs \<and>
      normalize_timestamp P (IntCol vs) = to_datetime_unit P Seconds (map of_int vs)"
      by (simp only: simp_thms)
  qed
  have b: "finite_values fs = Some qs \<longrightarrow>
      normalize_timestamp P (FloatCol fs) =
        to_datetime_unit P
          (if qs \<noteq> [] \<and> 10000000000 < Max (set (map (int64_of P) qs)) then Milliseconds else Seconds) qs"
    by (simp add: unit_of_factor)
  have b1: "finite_values fs = None \<longrightarrow> normalize_timestamp P (FloatCol fs) = Inl IntCastingNaNError"
    by simp
  have c: "qs \<noteq> [] \<and> (\<forall>q \<in> set qs. - (2 ^ 63) \<le> q \<and> q < 2 ^ 63) \<longrightarrow>
      (10000000000 < Max (set (map (int64_of P) qs)) \<longleftrightarrow> 10000000001 \<le> Max (set qs))"
    using int64_threshold[of qs P] by blast
  have d: "to_datetime_unit P u qs = Inr col \<longrightarrow> col = TimeCol (map (to_datetime_epoch P u) qs)"
    by (auto simp: to_datetime_unit_def split: if_splits)
  from a a1 a2 b b1 c d show ?thesis by blast
qed

theorem epoch_unit_uniform_witness:
  "normalize_timestamp example_pandas (IntCol [10000000001, 5]) =
     Inr (TimeCol [Some 10000000001000000, Some 5000000]) \<and>
   normalize_timestamp example_pandas (IntCol [10000000000, 5]) =
     to_datetime_unit example_pandas Seconds [10000000000, 5] \<and>
   normalize_timestamp example_pandas (IntCol [9223372036854775808, 18446744073709551615]) =
     to_datetime_unit example_pandas Seconds [9223372036854775808, 18446744073709551615] \<and>
   map wrap_int64 [9223372036854775808, 18446744073709551615] = [- 9223372036854775808, - 1] \<and>
   finite_values [Fin 10000000001, Fin (1 / 2)] = Some [10000000001, 1 / 2] \<and>
   normalize_timestamp example_pandas (FloatCol [Fin 10000000001, Fin (1 / 2)]) =
     Inr (TimeCol [Some 10000000001000000, Some 500000]) \<and>
   10000000000 < Max (set (map (int64_of example_pandas) [10000000001, 1 / 2])) \<and>
   normalize_timestamp example_pandas (FloatCol [Fin 1700000000, NaN]) = Inl IntCastingNaNError"
proof -
  have f: "finite_values [Fin 10000000001, Fin (1 / 2)] = Some [10000000001, 1 / 2]"
    by (simp add: finite_values_def)
  have n: "finite_values [Fin 1700000000, NaN] = None"
    by (simp add: finite_values_def)
  have r: "[10000000001, 1 / 2] \<noteq> [] \<and>
           (\<forall>q \<in> set [10000000001, 1 / 2 :: rat]. - (2 ^ 63) \<le> q \<and> q < 2 ^ 63)"
    by simp
  have m: "(10000000001 :: rat) \<le> Max (set [10000000001, 1 / 2])"
    by simp
  have ms: "to_datetime_unit example_pandas Milliseconds [10000000001, 1 / 2] =
              Inr (TimeCol [Some 10000000001000000, Some 500000])"
    by (simp add: frame_defs example_defs)
  have mi: "to_datetime_unit example_pandas Milliseconds (map of_int [10000000001, 5]) =
              Inr (TimeCol [Some 10000000001000000, Some 5000000])"
    by (simp add: frame_defs example_defs)
  from epoch_unit_uniform[where P = example_pandas and vs = "[10000000001, 5]"
      and fs = "[Fin 10000000001, Fin (1 / 2)]" and qs = "[10000000001, 1 / 2]"
      and u = Milliseconds and col = "TimeCol [Some 10000000001000000, Some 500000]"] f r m ms mi
  have a: "normalize_timestamp example_pandas (IntCol [10000000001, 5]) =
     Inr (TimeCol [Some 10000000001000000, Some 5000000]) \<and>
   normalize_timestamp example_pandas (FloatCol [Fin 10000000001, Fin (1 / 2)]) =
     Inr (TimeCol [Some 10000000001000000, Some 500000]) \<and>
   10000000000 < Max (set (map (int64_of example_pandas) [10000000001, 1 / 2]))"
    by (simp add: frame_defs example_defs)
  from epoch_unit_uniform[where P = example_pandas and vs = "[10000000000, 5]"
      and fs = "[Fin 1700000000, NaN]" and qs = "[10000000001, 1 / 2]"
      and u = Milliseconds and col = "TimeCol [Some 10000000001000000, Some 500000]"] n
  have b: "normalize_timestamp example_pandas (IntCol [10000000000, 5]) =
     to_datetime_unit example_pandas Seconds [10000000000, 5] \<and>
   normalize_timestamp example_pandas (FloatCol [Fin 1700000000, NaN]) = Inl IntCastingNaNError"
    by (simp add: frame_defs example_defs)
  from epoch_unit_uniform[where P = example_pandas
      and vs = "[9223372036854775808, 18446744073709551615]"
      and fs = "[Fin 10000000001, Fin (1 / 2)]" and qs = "[10000000001, 1 / 2]"
      and u = Milliseconds and col = "TimeCol [Some 10000000001000000, Some 500000]"]
  have c: "normalize_timestamp example_pandas (IntCol [9223372036854775808, 18446744073709551615]) =
     to_datetime_unit example_pandas Seconds [9223372036854775808, 18446744073709551615] \<and>
   map wrap_int64 [9223372036854775808, 18446744073709551615] = [- 9223372036854775808, - 1]"
    by (simp add: frame_defs example_defs)
  from a b c f show ?thesis by blast
qed

section \<open>Lemmas on the database and on cleaning\<close>

subsection \<open>Running a script again\<close>

lemma create_indexes_keeps:
  "create_indexes ixs (Some t) = (r, db1) \<Longrightarrow>
     \<exists>t1. db1 = Some t1 \<and> frame t1 = frame t \<and> primary_key t1 = primary_key t \<and>
          set (indexes t) \<subseteq> set (indexes t1)"
proof (induction ixs arbitrary: t)
  case Nil
  then show ?case by auto
next
  case (Cons ix ixs)
  obtain name col where ix: "ix = (name, col)" by (cases ix)
  show ?case
  proof (cases "name \<in> set (map fst (indexes t))")
    case True
    with Cons.prems ix have "create_indexes ixs (Some t) = (r, db1)" by simp
    from Cons.IH[OF this] show ?thesis .
  next
    case False
    show ?thesis
    proof (cases "col \<notin> set (columns (frame t))")
      case True
      with False Cons.prems ix show ?thesis by auto
    next
      case c: False
      with False Cons.prems ix
      have "create_indexes ixs (Some (t\<lparr>indexes := indexes t @ [(name, col)]\<rparr>)) = (r, db1)" by simp
      from Cons.IH[OF this] show ?thesis by auto
    qed
  qed
qed

lemma create_indexes_again:
  "create_indexes ixs db = (r, db1) \<Longrightarrow> create_indexes ixs db1 = (r, db1)"
proof (induction ixs arbitrary: db)
  case Nil
  then show ?case by auto
next
  case (Cons ix ixs)
  obtain name col where ix: "ix = (name, col)" by (cases ix)
  show ?case
  proof (cases db)
    case None
    with Cons.prems ix show ?thesis by auto
  next
    case (Some t)
    show ?thesis
    proof (cases "name \<in> set (map fst (indexes t))")
      case True
      with Cons.prems ix Some have rest: "create_indexes ixs (Some t) = (r, db1)" by simp
      from create_indexes_keeps[OF rest] obtain t1 where
        t1: "db1 = Some t1" "set (indexes t) \<subseteq> set (indexes t1)" by blast
      with True have "name \<in> set (map fst (indexes t1))" by auto
      with t1 ix Cons.IH[OF rest] show ?thesis by simp
    next
      case False
      show ?thesis
      proof (cases "col \<notin> set (columns (frame t))")
        case True
        with False Cons.prems ix Some show ?thesis by auto
      next
        case c: False
        with False Cons.prems ix Some
        have rest: "create_indexes ixs (Some (t\<lparr>indexes := indexes t @ [(name, col)]\<rparr>)) = (r, db1)"
          by simp
        from create_indexes_keeps[OF rest] obtain t1 where
          t1: "db1 = Some t1" "set (indexes (t\<lparr>indexes := indexes t @ [(name, col)]\<rparr>)) \<subseteq> set (indexes t1)"
          by blast
        then have "name \<in> set (map fst (indexes t1))" by force
        with t1 ix Cons.IH[OF rest] show ?thesis by simp
      qed
    qed
  qed
qed

lemma create_schema_Some [simp]: "create_schema (Some t) = Some t"
  by (simp add: create_schema_def)

lemma columns_select:
  assumes "select df names = Inr sel"
  shows "set names \<subseteq> set (columns sel)"
proof -
  from assms have all: "list_all (\<lambda>n. n \<in> set (columns df)) names"
    and sel: "sel = concat (map (\<lambda>n. filter (\<lambda>(c, col). c = n) df) names)"
    by (auto simp: select_def split: if_splits)
  show ?thesis
  proof
    fix n assume n: "n \<in> set names"
    with all have "n \<in> set (columns df)" by (simp add: list_all_iff)
    then obtain col where "(n, col) \<in> set df" by (auto simp: columns_def)
    with n have "(n, col) \<in> set sel" unfolding sel by auto
    then show "n \<in> set (columns sel)" by (force simp: columns_def)
  qed
qed

lemma columns_empty_like [simp]: "columns (empty_like df) = columns df"
  by (simp add: empty_like_def columns_def case_prod_unfold comp_def)

lemma backend_indexes_fresh:
  assumes "{''t'', ''class'', ''area'', ''vest'', ''speed''} \<subseteq> set (columns f)"
  shows "create_indexes backend_indexes (Some \<lparr>primary_key = k, indexes = [], frame = f\<rparr>) =
           (None, Some \<lparr>primary_key = k, indexes = backend_indexes, frame = f\<rparr>)"
  using assms by (simp add: backend_indexes_def)

lemma backend_indexes_schema:
  "create_indexes backend_indexes (create_schema None) =
     (None, Some ((the (create_schema None))\<lparr>indexes := backend_indexes\<rparr>))"
  by (simp add: create_schema_def backend_indexes_def columns_def)

lemma main_backend_again: "main_backend P csv (snd (main_backend P csv db)) = main_backend P csv db"
proof (cases csv)
  case (Inl e)
  then show ?thesis by (simp add: main_backend_def)
next
  case (Inr df)
  show ?thesis
  proof (cases "process_dataframe P df")
    case (Inl e)
    with Inr show ?thesis by (simp add: main_backend_def)
  next
    case pr: (Inr res)
    obtain msgs df1 where res: "res = (msgs, df1)" by (cases res)
    obtain r db1 where ci: "create_indexes backend_indexes (create_schema db) = (r, db1)"
      by (cases "create_indexes backend_indexes (create_schema db)")
    have "create_schema db \<noteq> None" by (simp add: create_schema_def split: option.splits)
    then obtain t0 where t0: "create_schema db = Some t0" by auto
    from create_indexes_keeps[OF ci[unfolded t0]] obtain t1 where t1: "db1 = Some t1" by blast
    have ci2: "create_indexes backend_indexes (create_schema db1) = (r, db1)"
      using create_indexes_again[OF ci] t1 by simp
    show ?thesis
    proof (cases r)
      case (Some e)
      with Inr pr res ci ci2 show ?thesis by (simp add: main_backend_def)
    next
      case None
      show ?thesis
      proof (cases "select df1 [''id'', ''class'', ''t'', ''x'', ''y'', ''heading'', ''vest'', ''speed'', ''area'']")
        case (Inl e)
        with Inr pr res ci ci2 None show ?thesis by (simp add: main_backend_def)
      next
        case sl: (Inr sel)
        from columns_select[OF sl]
        have cols: "{''t'', ''class'', ''area'', ''vest'', ''speed''} \<subseteq> set (columns sel)" by auto
        obtain r2 db2 where ts: "to_sql (Some (max_variables P)) sel db1 = (r2, db2)"
          by (cases "to_sql (Some (max_variables P)) sel db1")
        have first: "main_backend P csv db = ((case r2 of Some e \<Rightarrow> 1 | None \<Rightarrow> 0), db2)"
          using Inr pr res ci None sl ts by (simp add: main_backend_def split: option.splits)
        have same: "\<And>d. to_sql (Some (max_variables P)) sel d = (r2, db2)"
          using ts by (simp add: to_sql_def)
        have idx: "\<exists>db3. create_indexes backend_indexes (create_schema db2) = (None, db3)"
        proof (cases "distinct (columns sel)")
          case False
          with ts have "db2 = None" by (simp add: to_sql_def)
          then show ?thesis using backend_indexes_schema by simp
        next
          case True
          with ts have "db2 = Some \<lparr>primary_key = [], indexes = [], frame = sel\<rparr> \<or>
                        db2 = Some \<lparr>primary_key = [], indexes = [], frame = empty_like sel\<rparr>"
            by (auto simp: to_sql_def split: if_splits)
          then show ?thesis using backend_indexes_fresh[of sel] backend_indexes_fresh[of "empty_like sel"] cols
            by auto
        qed
        then obtain db3 where db3: "create_indexes backend_indexes (create_schema db2) = (None, db3)"
          by blast
        have "main_backend P csv db2 = ((case r2 of Some e \<Rightarrow> 1 | None \<Rightarrow> 0), db2)"
          using Inr pr res db3 sl same[of db3] by (simp add: main_backend_def split: option.splits)
        with first show ?thesis by simp
      qed
    qed
  qed
qed

lemma main_minimal_again: "main_minimal P csv (snd (main_minimal P csv db)) = main_minimal P csv db"
proof (cases csv)
  case (Inl e)
  then show ?thesis by (simp add: main_minimal_def)
next
  case (Inr df)
  show ?thesis
  proof (cases "minimal_frame P df")
    case (Inl e)
    with Inr show ?thesis by (simp add: main_minimal_def)
  next
    case mf: (Inr df1)
    show ?thesis
    proof (cases "select df1 [''id'', ''class'', ''t'', ''x'', ''y'', ''heading'', ''vest'', ''speed'']")
      case (Inl e)
      with Inr mf show ?thesis by (simp add: main_minimal_def)
    next
      case sl: (Inr sel)
      obtain r db1 where ts: "to_sql None sel db = (r, db1)"
        by (cases "to_sql None sel db")
      have same: "\<And>d. to_sql None sel d = (r, db1)"
        using ts by (simp add: to_sql_def)
      have run: "\<And>d. main_minimal P csv d =
          (case r of
             Some e \<Rightarrow> (Some e, db1)
           | None \<Rightarrow>
               create_indexes [(''idx_detections_t'', ''t''), (''idx_detections_class'', ''class'')] db1)"
        by (simp add: main_minimal_def Inr mf sl same split: option.splits)
      show ?thesis unfolding run ..
    qed
  qed
qed

subsection \<open>Lengths\<close>

lemma length_cells [simp]: "length (cells col) = col_length col"
  by (cases col) simp_all

lemma length_isna [simp]: "length (isna col) = col_length col"
  by (cases col) simp_all

lemma isna_cells: "isna col = map (\<lambda>c. c = Null) (cells col)"
  by (cases col) (auto split: option.splits)

lemma cells_keep_col: "cells (keep_col flags col) = keep flags (cells col)"
  by (cases col) (simp_all add: keep_def zip_map2 filter_map comp_def case_prod_unfold)

lemma col_length_keep_col: "col_length (keep_col flags col) = length (keep flags (cells col))"
  by (cases col) (simp_all add: keep_def zip_map2 filter_map comp_def case_prod_unfold)

lemma isna_keep_col: "isna (keep_col flags col) = keep flags (isna col)"
  by (cases col) (simp_all add: keep_def zip_map2 filter_map comp_def case_prod_unfold)

lemma length_keep: "length flags = length vs \<Longrightarrow> length (keep flags vs) = length (filter id flags)"
proof (induction flags vs rule: list_induct2)
  case Nil
  then show ?case by (simp add: keep_def)
next
  case (Cons f fs v vs)
  then show ?case by (simp add: keep_def)
qed

lemma keep_twice:
  "length m = length bs \<Longrightarrow> length bs = length vs \<Longrightarrow>
     keep (map Not (keep m bs)) (keep m vs) = keep (map (\<lambda>(a, b). a \<and> \<not> b) (zip m bs)) vs"
proof (induction m bs vs rule: list_induct3)
  case Nil
  then show ?case by (simp add: keep_def)
next
  case (Cons a m b bs v vs)
  then show ?case by (simp add: keep_def)
qed

lemma keep_member:
  "v \<in> set (keep flags vs) \<Longrightarrow> \<exists>i. i < length flags \<and> i < length vs \<and> flags ! i \<and> vs ! i = v"
proof -
  assume "v \<in> set (keep flags vs)"
  then have "(True, v) \<in> set (zip flags vs)" by (auto simp: keep_def)
  then show ?thesis by (auto simp: set_zip)
qed

subsection \<open>Columns of a frame\<close>

lemma columns_map_of: "n \<in> set (columns df) \<Longrightarrow> \<exists>c. map_of df n = Some c"
proof -
  assume "n \<in> set (columns df)"
  then obtain b where "(n, b) \<in> set df" by (auto simp: columns_def)
  then show ?thesis by (rule weak_map_of_SomeI)
qed

lemma getcol_in:
  assumes "n \<in> set (columns df)"
  shows "(n, getcol df n) \<in> set df"
proof -
  from columns_map_of[OF assms] obtain c where "map_of df n = Some c" by blast
  then show ?thesis by (auto simp: getcol_def dest: map_of_SomeD)
qed

lemma same_length_getcol:
  assumes "same_length df" and "n \<in> set (columns df)"
  shows "col_length (getcol df n) = nrows df"
  using assms(1) getcol_in[OF assms(2)] by (auto simp: same_length_def list_all_iff)

lemma getcol_map:
  assumes "n \<in> set (columns df)"
  shows "getcol (map (\<lambda>(k, col). (k, f col)) df) n = f (getcol df n)"
proof -
  from columns_map_of[OF assms] obtain c where c: "map_of df n = Some c" by blast
  then show ?thesis by (simp add: getcol_def map_of_map)
qed

lemma columns_map [simp]: "columns (map (\<lambda>(k, col). (k, f col)) df) = columns df"
  by (simp add: columns_def case_prod_unfold comp_def)

lemma columns_dropna [simp]: "columns (dropna names df) = columns df"
  by (simp add: dropna_def)

lemma getcol_dropna:
  "n \<in> set (columns df) \<Longrightarrow> getcol (dropna names df) n = keep_col (notna_all df names) (getcol df n)"
  by (simp add: dropna_def getcol_map)

subsection \<open>The flags of the rows to keep\<close>

lemma notna_all_nth:
  assumes "same_length df" and "set names \<subseteq> set (columns df)"
  shows "length (notna_all df names) = nrows df \<and>
         (\<forall>i < nrows df. notna_all df names ! i \<longleftrightarrow> (\<forall>n \<in> set names. \<not> isna (getcol df n) ! i))"
  using assms(2)
proof (induction names)
  case Nil
  then show ?case by simp
next
  case (Cons n names)
  then have ih: "length (notna_all df names) = nrows df"
    "\<forall>i < nrows df. notna_all df names ! i \<longleftrightarrow> (\<forall>n \<in> set names. \<not> isna (getcol df n) ! i)"
    by auto
  from Cons.prems have len: "length (isna (getcol df n)) = nrows df"
    using same_length_getcol[OF assms(1)] by simp
  show ?case using ih len by (auto simp: nth_zip)
qed

lemma notna_all_sound:
  assumes "n \<in> set names" and "i < length (notna_all df names)" and "notna_all df names ! i"
  shows "i < col_length (getcol df n) \<and> \<not> isna (getcol df n) ! i"
  using assms
proof (induction names arbitrary: i)
  case Nil
  then show ?case by simp
next
  case (Cons m names)
  from Cons.prems(2) have i: "i < col_length (getcol df m)" "i < length (notna_all df names)"
    by simp_all
  with Cons.prems(3) have here: "\<not> isna (getcol df m) ! i" "notna_all df names ! i"
    by (simp_all add: nth_zip)
  show ?case
  proof (cases "n = m")
    case True
    with i here show ?thesis by simp
  next
    case False
    with Cons.prems(1) have "n \<in> set names" by simp
    from Cons.IH[OF this i(2) here(2)] show ?thesis .
  qed
qed

text \<open>No row that is kept has a missing value in a column of the subset.\<close>

lemma dropna_no_null:
  assumes "n \<in> set names" and "n \<in> set (columns df)"
  shows "Null \<notin> set (cells (getcol (dropna names df) n))"
proof
  assume "Null \<in> set (cells (getcol (dropna names df) n))"
  then have "Null \<in> set (keep (notna_all df names) (cells (getcol df n)))"
    by (simp add: getcol_dropna[OF assms(2)] cells_keep_col)
  from keep_member[OF this] obtain i where
    i: "i < length (notna_all df names)" "i < length (cells (getcol df n))"
       "notna_all df names ! i" "cells (getcol df n) ! i = Null"
    by blast
  from notna_all_sound[OF assms(1) i(1) i(3)] have "\<not> isna (getcol df n) ! i" by simp
  with i(2,4) show False by (simp add: isna_cells)
qed

subsection \<open>Well-formed frames\<close>

lemma nrows_map [simp]:
  "(\<And>col. col_length (f col) = col_length col) \<Longrightarrow> nrows (map (\<lambda>(k, col). (k, f col)) df) = nrows df"
  by (cases df) (auto simp: nrows_def)

lemma same_length_dropna:
  assumes "same_length df" and "length flags = nrows df"
  shows "same_length (map (\<lambda>(n, col). (n, keep_col flags col)) df) \<and>
         nrows (map (\<lambda>(n, col). (n, keep_col flags col)) df)
           = (if df = [] then 0 else length (filter id flags))"
proof -
  have each: "\<And>n col. (n, col) \<in> set df \<Longrightarrow> col_length (keep_col flags col) = length (filter id flags)"
    using assms by (auto simp: same_length_def list_all_iff col_length_keep_col length_keep)
  have n: "nrows (map (\<lambda>(n, col). (n, keep_col flags col)) df)
           = (if df = [] then 0 else length (filter id flags))"
  proof (cases df)
    case Nil
    then show ?thesis by (simp add: nrows_def)
  next
    case (Cons p rest)
    obtain k c where "p = (k, c)" by (cases p)
    with Cons each[of k c] show ?thesis by (simp add: nrows_def)
  qed
  have "same_length (map (\<lambda>(n, col). (n, keep_col flags col)) df)"
    unfolding same_length_def n list_all_iff using each by (cases df) auto
  with n show ?thesis by blast
qed

subsection \<open>The two dropna calls\<close>

lemma zip_replicate_True: "map (\<lambda>(a, b). \<not> a \<and> b) (zip xs (replicate (length xs) True)) = map Not xs"
  by (induction xs) simp_all

lemma keep_col_twice:
  assumes "length m = length bs" and "length bs = col_length c"
  shows "keep_col (map Not (keep m bs)) (keep_col m c) = keep_col (map (\<lambda>(a, b). a \<and> \<not> b) (zip m bs)) c"
  using assms by (cases c) (simp_all add: keep_twice)

lemma nonempty_columns: "n \<in> set (columns df) \<Longrightarrow> df \<noteq> []"
  by (auto simp: columns_def)

lemma notna_after_keep:
  assumes wf: "same_length df" and len: "length flags = nrows df" and n: "n \<in> set (columns df)"
  shows "notna_all (map (\<lambda>(k, col). (k, keep_col flags col)) df) [n]
           = map Not (keep flags (isna (getcol df n)))"
proof -
  let ?df1 = "map (\<lambda>(k, col). (k, keep_col flags col)) df"
  have ne: "df \<noteq> []" using n by (rule nonempty_columns)
  have at: "length (isna (getcol df n)) = nrows df"
    using same_length_getcol[OF wf n] by simp
  have n1: "nrows ?df1 = length (filter id flags)"
    using same_length_dropna[OF wf len] ne by simp
  have t1: "isna (getcol ?df1 n) = keep flags (isna (getcol df n))"
    by (simp add: getcol_map[OF n] isna_keep_col)
  have k: "length (keep flags (isna (getcol df n))) = length (filter id flags)"
    using length_keep[of flags "isna (getcol df n)"] len at by simp
  show ?thesis
    using zip_replicate_True[of "keep flags (isna (getcol df n))"] by (simp add: t1 n1 k)
qed

lemma drop_invalid_frame:
  assumes wf: "same_length cf"
    and cols: "''x'' \<in> set (columns cf)" "''y'' \<in> set (columns cf)" "''t'' \<in> set (columns cf)"
  shows "snd (drop_invalid cf) = dropna [''x'', ''y'', ''t''] cf"
proof -
  define m1 where "m1 = notna_all cf [''x'', ''y'']"
  define m3 where "m3 = notna_all cf [''x'', ''y'', ''t'']"
  define tna where "tna = isna (getcol cf ''t'')"
  have m1: "length m1 = nrows cf"
    "\<forall>i < nrows cf. m1 ! i \<longleftrightarrow> (\<forall>n \<in> set [''x'', ''y'']. \<not> isna (getcol cf n) ! i)"
    unfolding m1_def using notna_all_nth[OF wf, of "[''x'', ''y'']"] cols by auto
  have m3: "length m3 = nrows cf"
    "\<forall>i < nrows cf. m3 ! i \<longleftrightarrow> (\<forall>n \<in> set [''x'', ''y'', ''t'']. \<not> isna (getcol cf n) ! i)"
    unfolding m3_def using notna_all_nth[OF wf, of "[''x'', ''y'', ''t'']"] cols by auto
  have tna: "length tna = nrows cf"
    unfolding tna_def using same_length_getcol[OF wf cols(3)] by simp
  have d1: "dropna [''x'', ''y''] cf = map (\<lambda>(k, col). (k, keep_col m1 col)) cf"
    unfolding dropna_def m1_def ..
  have d3: "dropna [''x'', ''y'', ''t''] cf = map (\<lambda>(k, col). (k, keep_col m3 col)) cf"
    unfolding dropna_def m3_def ..
  have m2: "notna_all (map (\<lambda>(k, col). (k, keep_col m1 col)) cf) [''t''] = map Not (keep m1 tna)"
    unfolding tna_def by (rule notna_after_keep[OF wf m1(1) cols(3)])
  have comb: "map (\<lambda>(a, b). a \<and> \<not> b) (zip m1 tna) = m3"
  proof (rule nth_equalityI)
    show "length (map (\<lambda>(a, b). a \<and> \<not> b) (zip m1 tna)) = length m3"
      using m1(1) m3(1) tna by simp
  next
    fix i assume "i < length (map (\<lambda>(a, b). a \<and> \<not> b) (zip m1 tna))"
    then have i: "i < nrows cf" using m1(1) tna by simp
    then have "map (\<lambda>(a, b). a \<and> \<not> b) (zip m1 tna) ! i = (m1 ! i \<and> \<not> tna ! i)"
      using m1(1) tna by simp
    also have "\<dots> = m3 ! i" using m1(2) m3(2) i by (simp add: tna_def)
    finally show "map (\<lambda>(a, b). a \<and> \<not> b) (zip m1 tna) ! i = m3 ! i" .
  qed
  have each: "\<And>n c. (n, c) \<in> set cf \<Longrightarrow>
      keep_col (map Not (keep m1 tna)) (keep_col m1 c) = keep_col m3 c"
  proof -
    fix n c assume "(n, c) \<in> set cf"
    with wf have "col_length c = nrows cf" by (auto simp: same_length_def list_all_iff)
    with keep_col_twice[of m1 tna c] m1(1) tna comb
    show "keep_col (map Not (keep m1 tna)) (keep_col m1 c) = keep_col m3 c" by simp
  qed
  have "snd (drop_invalid cf) = dropna [''t''] (dropna [''x'', ''y''] cf)"
    by (simp only: drop_invalid_def Let_def snd_conv)
  also have "\<dots> = map (\<lambda>(n, c). (n, keep_col (map Not (keep m1 tna)) c))
                      (map (\<lambda>(k, col). (k, keep_col m1 col)) cf)"
    unfolding d1 dropna_def[of "[''t'']"] m2 ..
  also have "\<dots> = map (\<lambda>(n, c). (n, keep_col m3 c)) cf"
    using each by auto
  finally show ?thesis unfolding d3 .
qed

text \<open>What the two messages count.\<close>

lemma count_split:
  "length fs = length bs \<Longrightarrow>
      length (filter id (map Not (keep fs bs))) + length (filter (\<lambda>(a, b). a \<and> b) (zip fs bs))
        = length (filter id fs)"
  by (induction fs bs rule: list_induct2) (auto simp: keep_def)

lemma drop_invalid_log:
  assumes wf: "same_length cf"
    and cols: "''x'' \<in> set (columns cf)" "''y'' \<in> set (columns cf)" "''t'' \<in> set (columns cf)"
  shows "fst (drop_invalid cf) =
           (if length (filter Not (notna_all cf [''x'', ''y''])) \<noteq> 0
            then [RemovedInvalidCoordinates (length (filter Not (notna_all cf [''x'', ''y''])))] else []) @
           (if length (filter (\<lambda>(a, b). a \<and> b) (zip (notna_all cf [''x'', ''y'']) (isna (getcol cf ''t'')))) \<noteq> 0
            then [RemovedInvalidTimestamps
                    (length (filter (\<lambda>(a, b). a \<and> b) (zip (notna_all cf [''x'', ''y'']) (isna (getcol cf ''t'')))))]
            else [])"
proof -
  define m1 where "m1 = notna_all cf [''x'', ''y'']"
  define tna where "tna = isna (getcol cf ''t'')"
  define df1 where "df1 = dropna [''x'', ''y''] cf"
  define df2 where "df2 = dropna [''t''] df1"
  have ne: "cf \<noteq> []" using cols(1) by (rule nonempty_columns)
  have m1: "length m1 = nrows cf"
    unfolding m1_def using notna_all_nth[OF wf, of "[''x'', ''y'']"] cols by auto
  have tna: "length tna = nrows cf"
    unfolding tna_def using same_length_getcol[OF wf cols(3)] by simp
  have d1: "df1 = map (\<lambda>(k, col). (k, keep_col m1 col)) cf"
    unfolding df1_def dropna_def m1_def ..
  have wf1: "same_length df1" and n1: "nrows df1 = length (filter id m1)"
    unfolding d1 using same_length_dropna[OF wf m1] ne by simp_all
  have k: "length (keep m1 tna) = length (filter id m1)"
    using length_keep[of m1 tna] m1 tna by simp
  have m2: "notna_all df1 [''t''] = map Not (keep m1 tna)"
    unfolding d1 tna_def by (rule notna_after_keep[OF wf m1 cols(3)])
  have ne1: "df1 \<noteq> []" using ne by (simp add: d1)
  have d2: "df2 = map (\<lambda>(k, col). (k, keep_col (map Not (keep m1 tna)) col)) df1"
    unfolding df2_def dropna_def m2 ..
  have n2: "nrows df2 = length (filter id (map Not (keep m1 tna)))"
    unfolding d2 using same_length_dropna[OF wf1, of "map Not (keep m1 tna)"] ne1 n1 k by simp
  have c1: "nrows cf - nrows df1 = length (filter Not m1)"
  proof -
    have "length (filter id m1) + length (filter Not m1) = length m1"
      using sum_length_filter_compl[of id m1] by (simp add: comp_def)
    then show ?thesis using n1 m1 by simp
  qed
  have c2: "nrows df1 - nrows df2 = length (filter (\<lambda>(a, b). a \<and> b) (zip m1 tna))"
    using count_split[of m1 tna] m1 tna n1 n2 by simp
  have "fst (drop_invalid cf) =
          (if nrows cf \<noteq> nrows df1 then [RemovedInvalidCoordinates (nrows cf - nrows df1)] else []) @
          (if nrows df1 \<noteq> nrows df2 then [RemovedInvalidTimestamps (nrows df1 - nrows df2)] else [])"
    by (simp only: drop_invalid_def Let_def fst_conv df1_def df2_def)
  moreover have "nrows df1 \<le> nrows cf" using n1 m1 by (metis length_filter_le)
  moreover have "nrows df2 \<le> nrows df1" using n2 n1 k by (metis length_filter_le length_map)
  ultimately show ?thesis
    using c1 c2 unfolding m1_def[symmetric] tna_def[symmetric] by auto
qed

subsection \<open>The frame after the coercions\<close>

lemma same_length_setcol:
  assumes "same_length df" and "col_length c = nrows df"
  shows "same_length (setcol df n c) \<and> nrows (setcol df n c) = nrows df"
proof (cases "n \<in> set (columns df)")
  case True
  then have ne: "df \<noteq> []" by (rule nonempty_columns)
  have s: "setcol df n c = map (\<lambda>(k, col). if k = n then (k, c) else (k, col)) df"
    using True by (simp add: setcol_def)
  have n: "nrows (setcol df n c) = nrows df"
    unfolding s using ne assms(2) by (cases df) (auto simp: nrows_def)
  have "same_length (setcol df n c)"
    unfolding same_length_def n using assms unfolding s same_length_def list_all_iff
    by (auto split: if_splits)
  with n show ?thesis by blast
next
  case False
  then have s: "setcol df n c = df @ [(n, c)]" by (simp add: setcol_def)
  have n: "nrows (setcol df n c) = nrows df"
    unfolding s using assms(2) by (cases df) (auto simp: nrows_def)
  have "same_length (setcol df n c)"
    unfolding same_length_def n using assms unfolding s same_length_def list_all_iff by auto
  with n show ?thesis by blast
qed

lemma finite_values_length: "finite_values fs = Some qs \<Longrightarrow> length qs = length fs"
  by (auto simp: finite_values_def split: if_splits)

lemma normalize_timestamp_length:
  "normalize_timestamp P col = Inr t \<Longrightarrow> col_length t = col_length col"
  by (cases col)
     (auto simp: to_datetime_unit_def to_datetime_coerce_def finite_values_length
           split: if_splits option.splits)

lemma first_candidate_member: "first_candidate cands cols = Inr c \<Longrightarrow> c \<in> set cols"
  by (induction cands) (auto split: if_splits)

lemma same_length_rename:
  "same_length (rename_columns aliases df) = same_length df"
  "nrows (rename_columns aliases df) = nrows df"
proof -
  show n: "nrows (rename_columns aliases df) = nrows df"
    by (cases df) (auto simp: rename_columns_def nrows_def)
  show "same_length (rename_columns aliases df) = same_length df"
    unfolding same_length_def n by (auto simp: rename_columns_def list_all_iff)
qed

lemma to_numeric_length [simp]: "col_length (to_numeric P col) = col_length col"
  by (cases col) simp_all

lemma numeric_casts_wf:
  "same_length df \<Longrightarrow>
     same_length (numeric_casts P names df) \<and> nrows (numeric_casts P names df) = nrows df \<and>
     columns (numeric_casts P names df) = columns df"
proof (induction names arbitrary: df)
  case Nil
  then show ?case by simp
next
  case (Cons n names)
  show ?case
  proof (cases "n \<in> set (columns df)")
    case True
    let ?df = "setcol df n (to_numeric P (getcol df n))"
    have "col_length (to_numeric P (getcol df n)) = nrows df"
      using same_length_getcol[OF Cons.prems True] by simp
    from same_length_setcol[OF Cons.prems this, of n]
    have wf: "same_length ?df" and nr: "nrows ?df = nrows df" by simp_all
    have cs: "columns ?df = columns df" using True by (rule columns_setcol_present)
    from Cons.IH[OF wf] nr cs True show ?thesis by simp
  next
    case False
    with Cons.IH[OF Cons.prems] show ?thesis by simp
  qed
qed

lemma handle_area_wf:
  assumes "same_length df"
  shows "same_length (handle_area P df) \<and> nrows (handle_area P df) = nrows df \<and>
         set (columns df) \<subseteq> set (columns (handle_area P df))"
proof (cases "''area'' \<in> set (columns df)")
  case True
  have "col_length (area_column P (getcol df ''area'')) = nrows df"
    using same_length_getcol[OF assms True] by (simp add: area_column_def)
  from same_length_setcol[OF assms this, of "''area''"] True show ?thesis
    by (auto simp: handle_area_def columns_setcol)
next
  case False
  have "col_length (ObjCol (replicate (nrows df) None)) = nrows df" by simp
  from same_length_setcol[OF assms this, of "''area''"] False show ?thesis
    by (auto simp: handle_area_def columns_setcol)
qed

lemma clean_wf:
  assumes "same_length df"
  shows "same_length (clean P df) \<and> nrows (clean P df) = nrows df \<and>
         set (columns df) \<subseteq> set (columns (clean P df))"
  using numeric_casts_wf[OF assms, of P "[''x'', ''y'', ''heading'', ''speed'', ''vest'']"]
    handle_area_wf[of "numeric_casts P [''x'', ''y'', ''heading'', ''speed'', ''vest''] df" P]
  by (auto simp: clean_def)

lemma set_timestamp_wf:
  assumes "same_length df" and "set_timestamp P df = Inr df1"
  shows "same_length df1 \<and> nrows df1 = nrows df"
proof -
  from assms(2) obtain c t where c: "infer_timestamp_col df = Inr c"
    and t: "normalize_timestamp P (getcol df c) = Inr t" and d: "df1 = setcol df ''t'' t"
    unfolding set_timestamp_def ebind_Inr_iff by auto
  from c have "c \<in> set (columns df)"
    unfolding infer_timestamp_col_def by (rule first_candidate_member)
  with normalize_timestamp_length[OF t] same_length_getcol[OF assms(1)]
  have "col_length t = nrows df" by simp
  from same_length_setcol[OF assms(1) this, of "''t''"] d show ?thesis by simp
qed

lemma missing_cols_Nil:
  "missing_cols df = [] \<longleftrightarrow> set [''id'', ''class'', ''x'', ''y'', ''t''] \<subseteq> set (columns df)"
  by (auto simp: missing_cols_def filter_empty_conv)

lemma coerce_frame_Inr:
  assumes "coerce_frame P df = Inr cf"
  shows "\<exists>df1. set_timestamp P df = Inr df1 \<and>
           missing_cols (rename_columns [''class_name'', ''label'', ''type''] df1) = [] \<and>
           cf = clean P (rename_columns [''class_name'', ''label'', ''type''] df1)"
  using assms unfolding coerce_frame_def ebind_Inr_iff Let_def by (auto split: if_splits)

lemma coerce_frame_wf:
  assumes "same_length df" and "coerce_frame P df = Inr cf"
  shows "same_length cf" and "nrows cf = nrows df"
    and "set [''id'', ''class'', ''x'', ''y'', ''t''] \<subseteq> set (columns cf)"
proof -
  from coerce_frame_Inr[OF assms(2)] obtain df1 where
    s: "set_timestamp P df = Inr df1"
    and m: "missing_cols (rename_columns [''class_name'', ''label'', ''type''] df1) = []"
    and c: "cf = clean P (rename_columns [''class_name'', ''label'', ''type''] df1)" by blast
  from set_timestamp_wf[OF assms(1) s] have w1: "same_length df1" "nrows df1 = nrows df" by simp_all
  let ?df2 = "rename_columns [''class_name'', ''label'', ''type''] df1"
  have w2: "same_length ?df2" "nrows ?df2 = nrows df" using w1 by (simp_all add: same_length_rename)
  from clean_wf[OF w2(1), of P] w2(2) c m
  show "same_length cf" "nrows cf = nrows df"
    "set [''id'', ''class'', ''x'', ''y'', ''t''] \<subseteq> set (columns cf)"
    unfolding missing_cols_Nil by auto
qed

lemma process_dataframe_result:
  assumes "same_length df" and "coerce_frame P df = Inr cf"
  shows "process_dataframe P df = Inr (fst (drop_invalid cf), dropna [''x'', ''y'', ''t''] cf)"
proof -
  from coerce_frame_wf[OF assms] have wf: "same_length cf"
    and cols: "''x'' \<in> set (columns cf)" "''y'' \<in> set (columns cf)" "''t'' \<in> set (columns cf)"
    by auto
  from drop_invalid_frame[OF wf cols] have "drop_invalid cf = (fst (drop_invalid cf), dropna [''x'', ''y'', ''t''] cf)"
    by (metis prod.collapse)
  then show ?thesis using assms(2) by (simp add: process_dataframe_def ebind_def)
qed

lemma map_of_filter_key:
  "map_of (filter (\<lambda>(c, col). c = m) df) n = (if n = m then map_of df n else None)"
  by (induction df) auto

lemma map_of_select:
  "map_of (concat (map (\<lambda>m. filter (\<lambda>(c, col). c = m) df) names)) n
     = (if n \<in> set names then map_of df n else None)"
proof (induction names)
  case Nil
  then show ?case by simp
next
  case (Cons m names)
  show ?case
  proof (cases "n = m")
    case True
    then show ?thesis
      using Cons.IH by (cases "map_of df n") (auto simp: map_of_filter_key map_add_def)
  next
    case False
    then show ?thesis using Cons.IH by (simp add: map_of_filter_key map_add_def)
  qed
qed

lemma getcol_select:
  assumes "select df names = Inr sel" and "n \<in> set names"
  shows "getcol sel n = getcol df n"
proof -
  from assms(1) have "sel = concat (map (\<lambda>m. filter (\<lambda>(c, col). c = m) df) names)"
    by (auto simp: select_def split: if_splits)
  then show ?thesis using assms(2) by (simp add: getcol_def map_of_select)
qed

lemma main_backend_success:
  assumes "main_backend P (Inr df) db = (0, db')"
  shows "\<exists>msgs out sel. process_dataframe P df = Inr (msgs, out) \<and>
           select out [''id'', ''class'', ''t'', ''x'', ''y'', ''heading'', ''vest'', ''speed'', ''area''] = Inr sel \<and>
           db' = Some \<lparr>primary_key = [], indexes = [], frame = sel\<rparr>"
proof (cases "process_dataframe P df")
  case (Inl e)
  with assms show ?thesis by (simp add: main_backend_def)
next
  case (Inr res)
  obtain msgs out where res: "res = (msgs, out)" by (cases res)
  obtain r db1 where ci: "create_indexes backend_indexes (create_schema db) = (r, db1)"
    by (cases "create_indexes backend_indexes (create_schema db)")
  show ?thesis
  proof (cases r)
    case (Some e)
    with assms Inr res ci show ?thesis by (simp add: main_backend_def)
  next
    case None
    show ?thesis
    proof (cases "select out [''id'', ''class'', ''t'', ''x'', ''y'', ''heading'', ''vest'', ''speed'', ''area'']")
      case (Inl e)
      with assms Inr res ci None show ?thesis by (simp add: main_backend_def)
    next
      case sl: (Inr sel)
      obtain r2 db2 where ts: "to_sql (Some (max_variables P)) sel db1 = (r2, db2)"
        by (cases "to_sql (Some (max_variables P)) sel db1")
      from assms Inr res ci None sl ts have r2: "r2 = None" and d: "db2 = db'"
        by (auto simp: main_backend_def split: option.splits)
      from ts r2 d have "db' = Some \<lparr>primary_key = [], indexes = [], frame = sel\<rparr>"
        by (auto simp: to_sql_def split: if_splits)
      with Inr res sl show ?thesis by simp
    qed
  qed
qed

lemma rename_columns_mono:
  assumes "set (columns df) \<subseteq> set (columns df')"
  shows "set (columns (rename_columns aliases df)) \<subseteq> set (columns (rename_columns aliases df'))"
  unfolding columns_rename set_map using assms by (rule image_mono)

lemma rename_keeps_t:
  assumes "''t'' \<in> set (columns df)"
  shows "''t'' \<in> set (columns (rename_columns [''class_name'', ''label'', ''type''] df))"
  unfolding columns_rename set_map using assms
  by (rule rev_image_eqI) (simp add: lower_names)

lemma text_timestamp_coerce:
  assumes "infer_timestamp_col df = Inr c" and "getcol df c = ObjCol vs"
    and "set [''id'', ''class'', ''x'', ''y'']
           \<subseteq> set (columns (rename_columns [''class_name'', ''label'', ''type''] df))"
  shows "coerce_frame P df =
           Inr (clean P (rename_columns [''class_name'', ''label'', ''type'']
                  (setcol df ''t'' (to_datetime_coerce P vs))))"
proof -
  define df1 where "df1 = setcol df ''t'' (to_datetime_coerce P vs)"
  define df2 where "df2 = rename_columns [''class_name'', ''label'', ''type''] df1"
  have s: "set_timestamp P df = Inr df1"
    using assms(1,2) by (simp add: set_timestamp_def ebind_def df1_def)
  have sub: "set (columns df) \<subseteq> set (columns df1)" and t1: "''t'' \<in> set (columns df1)"
    unfolding df1_def columns_setcol by auto
  have a: "set [''id'', ''class'', ''x'', ''y''] \<subseteq> set (columns df2)"
    unfolding df2_def using assms(3) rename_columns_mono[OF sub] by (rule subset_trans)
  have b: "''t'' \<in> set (columns df2)"
    unfolding df2_def using t1 by (rule rename_keeps_t)
  have "set [''id'', ''class'', ''x'', ''y'', ''t''] \<subseteq> set (columns df2)"
    using a b by simp
  then have m: "missing_cols df2 = []"
    unfolding missing_cols_Nil .
  have "coerce_frame P df = Inr (clean P df2)"
    unfolding coerce_frame_def s ebind_def sum.case Let_def df2_def[symmetric] using m by simp
  then show ?thesis unfolding df2_def df1_def .
qed

subsection \<open>The concrete runs\<close>

lemma drop_invalid_total:
  assumes wf: "same_length cf"
    and cols: "''x'' \<in> set (columns cf)" "''y'' \<in> set (columns cf)" "''t'' \<in> set (columns cf)"
  shows "nrows (dropna [''x'', ''y'', ''t''] cf) + invalid_coordinates cf + invalid_timestamps cf = nrows cf"
proof -
  define m1 where "m1 = notna_all cf [''x'', ''y'']"
  define tna where "tna = isna (getcol cf ''t'')"
  define df1 where "df1 = dropna [''x'', ''y''] cf"
  define df2 where "df2 = dropna [''t''] df1"
  have ne: "cf \<noteq> []" using cols(1) by (rule nonempty_columns)
  have m1: "length m1 = nrows cf"
    unfolding m1_def using notna_all_nth[OF wf, of "[''x'', ''y'']"] cols by auto
  have tna: "length tna = nrows cf"
    unfolding tna_def using same_length_getcol[OF wf cols(3)] by simp
  have d1: "df1 = map (\<lambda>(k, col). (k, keep_col m1 col)) cf"
    unfolding df1_def dropna_def m1_def ..
  have wf1: "same_length df1" and n1: "nrows df1 = length (filter id m1)"
    unfolding d1 using same_length_dropna[OF wf m1] ne by simp_all
  have k: "length (keep m1 tna) = length (filter id m1)"
    using length_keep[of m1 tna] m1 tna by simp
  have m2: "notna_all df1 [''t''] = map Not (keep m1 tna)"
    unfolding d1 tna_def by (rule notna_after_keep[OF wf m1 cols(3)])
  have ne1: "df1 \<noteq> []" using ne by (simp add: d1)
  have d2: "df2 = map (\<lambda>(k, col). (k, keep_col (map Not (keep m1 tna)) col)) df1"
    unfolding df2_def dropna_def m2 ..
  have n2: "nrows df2 = length (filter id (map Not (keep m1 tna)))"
    unfolding d2 using same_length_dropna[OF wf1, of "map Not (keep m1 tna)"] ne1 n1 k by simp
  have "length (filter id m1) + length (filter Not m1) = length m1"
    using sum_length_filter_compl[of id m1] by (simp add: comp_def)
  moreover have "df2 = snd (drop_invalid cf)"
    by (simp only: drop_invalid_def Let_def snd_conv df1_def df2_def)
  ultimately show ?thesis
    using count_split[of m1 tna] m1 tna n2 drop_invalid_frame[OF wf cols]
    unfolding invalid_coordinates_def invalid_timestamps_def m1_def[symmetric] tna_def[symmetric]
    by simp
qed

lemma coerce_label_frame:
  "coerce_frame example_pandas label_frame =
     Inr [(''class'', ObjCol [Some ''ped'', Some ''veh'', Some ''ped'']),
          (''time'', ObjCol [Some ''2024-01-01 00:00:00'', Some ''2024-01-01 00:00:01'', Some ''not-a-date'']),
          (''id'', ObjCol [Some ''a1'', Some ''a2'', Some ''a3'']),
          (''x'', FloatCol [Fin 1, NaN, Fin 4]),
          (''y'', FloatCol [Fin 2, Fin 3, Fin 5]),
          (''heading'', FloatCol [NaN, Fin 90, NaN]),
          (''vest'', IntCol [1, 0, 1]),
          (''speed'', FloatCol [Fin (1 / 2), NaN, Fin (1 / 2)]),
          (''t'', TimeCol [Some 1704067200000000000, Some 1704067201000000000, None]),
          (''area'', ObjCol [None, None, None])]"
  by (simp add: frame_defs example_defs label_frame_def)

lemma backend_label_frame:
  "main_backend example_pandas (Inr label_frame) None =
     (0, Some \<lparr>primary_key = [], indexes = [],
           frame = [(''id'', ObjCol [Some ''a1'']), (''class'', ObjCol [Some ''ped'']),
                    (''t'', TimeCol [Some 1704067200000000000]),
                    (''x'', FloatCol [Fin 1]), (''y'', FloatCol [Fin 2]),
                    (''heading'', FloatCol [NaN]), (''vest'', IntCol [1]),
                    (''speed'', FloatCol [Fin (1 / 2)]), (''area'', ObjCol [None])]\<rparr>)"
  by (simp add: frame_defs example_defs label_frame_def)

lemma minimal_label_frame:
  "main_minimal example_pandas (Inr label_frame) None =
     (None, Some \<lparr>primary_key = [],
           indexes = [(''idx_detections_t'', ''t''), (''idx_detections_class'', ''class'')],
           frame = [(''id'', ObjCol [Some ''a1'', Some ''a2'', Some ''a3'']),
                    (''class'', ObjCol [Some ''ped'', Some ''veh'', Some ''ped'']),
                    (''t'', TimeCol [Some 1704067200000000000, Some 1704067201000000000, None]),
                    (''x'', FloatCol [Fin 1, NaN, Fin 4]),
                    (''y'', FloatCol [Fin 2, Fin 3, Fin 5]),
                    (''heading'', FloatCol [NaN, Fin 90, NaN]),
                    (''vest'', IntCol [1, 0, 1]),
                    (''speed'', FloatCol [Fin (1 / 2), NaN, Fin (1 / 2)])]\<rparr>)"
  by (simp add: frame_defs example_defs label_frame_def)

lemma backend_nan_time_frame:
  "main_backend example_pandas (Inr nan_time_frame) None = (1, None)"
  by (simp add: frame_defs example_defs nan_time_frame_def)

lemma pg_bad_x_run:
  "main_pg decimal_lib bad_x_run =
     \<lparr>exit_status = 1, connected_to = Some ''postgres://env/db'', table_after = Some []\<rparr>"
  by code_simp

lemma same_length_label_frame: "same_length label_frame"
  by (simp add: same_length_def label_frame_def nrows_def)

section \<open>The claims on cleaning and reloading\<close>

text \<open>
  C2, as the claim states it, fails: the minimal script \<^verbatim>\<open>seed_sqlite.py\<close> drops no
  row, and a completed run persists a row with a missing \<^verbatim>\<open>x\<close> and a row with a missing
  timestamp.
\<close>

theorem minimal_persists_missing_counterexample:
  "fst (main_minimal example_pandas (Inr label_frame) None) = None \<and>
   Null \<in> set (cells (getcol (frame (the (snd (main_minimal example_pandas (Inr label_frame) None)))) ''x'')) \<and>
   Null \<in> set (cells (getcol (frame (the (snd (main_minimal example_pandas (Inr label_frame) None)))) ''t''))"
  unfolding minimal_label_frame by (simp add: getcol_def)

text \<open>
  C2, amended. In the backend script, on a frame whose coercions succeed, the rows that
  \<^verbatim>\<open>process_dataframe\<close> returns are exactly the rows of the coerced frame with
  \<^verbatim>\<open>x\<close>, \<^verbatim>\<open>y\<close> and \<^verbatim>\<open>t\<close> all present: a row with one of them missing is excluded,
  no row returned has a missing \<^verbatim>\<open>x\<close>, \<^verbatim>\<open>y\<close> or \<^verbatim>\<open>t\<close>, and after a completed
  run the table holds these rows and no null in the three columns.
\<close>

theorem backend_excludes_missing:
  assumes "same_length df" and "coerce_frame P df = Inr cf"
  shows "process_dataframe P df = Inr (fst (drop_invalid cf), dropna [''x'', ''y'', ''t''] cf) \<and>
         length (notna_all cf [''x'', ''y'', ''t'']) = nrows cf \<and>
         (\<forall>i < nrows cf. notna_all cf [''x'', ''y'', ''t''] ! i \<longleftrightarrow>
            cells (getcol cf ''x'') ! i \<noteq> Null \<and> cells (getcol cf ''y'') ! i \<noteq> Null \<and>
            cells (getcol cf ''t'') ! i \<noteq> Null) \<and>
         Null \<notin> set (cells (getcol (dropna [''x'', ''y'', ''t''] cf) ''x'')) \<and>
         Null \<notin> set (cells (getcol (dropna [''x'', ''y'', ''t''] cf) ''y'')) \<and>
         Null \<notin> set (cells (getcol (dropna [''x'', ''y'', ''t''] cf) ''t'')) \<and>
         (main_backend P (Inr df) db = (0, db') \<longrightarrow>
            select (dropna [''x'', ''y'', ''t''] cf)
              [''id'', ''class'', ''t'', ''x'', ''y'', ''heading'', ''vest'', ''speed'', ''area'']
              = Inr (frame (the db')) \<and>
            Null \<notin> set (cells (getcol (frame (the db')) ''x'')) \<and>
            Null \<notin> set (cells (getcol (frame (the db')) ''y'')) \<and>
            Null \<notin> set (cells (getcol (frame (the db')) ''t'')))"
proof -
  from coerce_frame_wf[OF assms] have wf: "same_length cf" and nr: "nrows cf = nrows df"
    and cols: "''x'' \<in> set (columns cf)" "''y'' \<in> set (columns cf)" "''t'' \<in> set (columns cf)"
    by auto
  let ?out = "dropna [''x'', ''y'', ''t''] cf"
  have p: "process_dataframe P df = Inr (fst (drop_invalid cf), ?out)"
    by (rule process_dataframe_result[OF assms])
  have len: "\<And>n. n \<in> set (columns cf) \<Longrightarrow> length (cells (getcol cf n)) = nrows cf"
    using same_length_getcol[OF wf] by simp
  have fl: "length (notna_all cf [''x'', ''y'', ''t'']) = nrows cf"
    and fl2: "\<forall>i < nrows cf. notna_all cf [''x'', ''y'', ''t''] ! i \<longleftrightarrow>
            (\<forall>n \<in> set [''x'', ''y'', ''t'']. \<not> isna (getcol cf n) ! i)"
    using notna_all_nth[OF wf, of "[''x'', ''y'', ''t'']"] cols by auto
  have f: "\<forall>i < nrows cf. notna_all cf [''x'', ''y'', ''t''] ! i \<longleftrightarrow>
            cells (getcol cf ''x'') ! i \<noteq> Null \<and> cells (getcol cf ''y'') ! i \<noteq> Null \<and>
            cells (getcol cf ''t'') ! i \<noteq> Null"
    using fl2 len[OF cols(1)] len[OF cols(2)] len[OF cols(3)] by (simp add: isna_cells)
  have nx: "Null \<notin> set (cells (getcol ?out ''x''))"
    using dropna_no_null[of "''x''" "[''x'', ''y'', ''t'']" cf] cols by simp
  have ny: "Null \<notin> set (cells (getcol ?out ''y''))"
    using dropna_no_null[of "''y''" "[''x'', ''y'', ''t'']" cf] cols by simp
  have nt: "Null \<notin> set (cells (getcol ?out ''t''))"
    using dropna_no_null[of "''t''" "[''x'', ''y'', ''t'']" cf] cols by simp
  have m: "main_backend P (Inr df) db = (0, db') \<longrightarrow>
            select ?out [''id'', ''class'', ''t'', ''x'', ''y'', ''heading'', ''vest'', ''speed'', ''area'']
              = Inr (frame (the db')) \<and>
            Null \<notin> set (cells (getcol (frame (the db')) ''x'')) \<and>
            Null \<notin> set (cells (getcol (frame (the db')) ''y'')) \<and>
            Null \<notin> set (cells (getcol (frame (the db')) ''t''))"
  proof
    assume "main_backend P (Inr df) db = (0, db')"
    from main_backend_success[OF this] p obtain sel where
      sel: "select ?out [''id'', ''class'', ''t'', ''x'', ''y'', ''heading'', ''vest'', ''speed'', ''area''] = Inr sel"
      and db': "db' = Some \<lparr>primary_key = [], indexes = [], frame = sel\<rparr>" by auto
    have "getcol sel ''x'' = getcol ?out ''x''" "getcol sel ''y'' = getcol ?out ''y''"
      "getcol sel ''t'' = getcol ?out ''t''"
      using getcol_select[OF sel] by simp_all
    with sel db' nx ny nt
    show "select ?out [''id'', ''class'', ''t'', ''x'', ''y'', ''heading'', ''vest'', ''speed'', ''area'']
              = Inr (frame (the db')) \<and>
            Null \<notin> set (cells (getcol (frame (the db')) ''x'')) \<and>
            Null \<notin> set (cells (getcol (frame (the db')) ''y'')) \<and>
            Null \<notin> set (cells (getcol (frame (the db')) ''t''))" by simp
  qed
  from p fl f nx ny nt m show ?thesis by blast
qed

theorem backend_excludes_missing_witness:
  "same_length label_frame \<and>
   process_dataframe example_pandas label_frame =
     Inr ([RemovedInvalidCoordinates 1, RemovedInvalidTimestamps 1],
          [(''class'', ObjCol [Some ''ped'']),
           (''time'', ObjCol [Some ''2024-01-01 00:00:00'']),
           (''id'', ObjCol [Some ''a1'']), (''x'', FloatCol [Fin 1]),
           (''y'', FloatCol [Fin 2]), (''heading'', FloatCol [NaN]),
           (''vest'', IntCol [1]), (''speed'', FloatCol [Fin (1 / 2)]),
           (''t'', TimeCol [Some 1704067200000000000]),
           (''area'', ObjCol [None])]) \<and>
   main_backend example_pandas (Inr label_frame) None =
     (0, Some \<lparr>primary_key = [], indexes = [],
           frame = [(''id'', ObjCol [Some ''a1'']), (''class'', ObjCol [Some ''ped'']),
                    (''t'', TimeCol [Some 1704067200000000000]),
                    (''x'', FloatCol [Fin 1]), (''y'', FloatCol [Fin 2]),
                    (''heading'', FloatCol [NaN]), (''vest'', IntCol [1]),
                    (''speed'', FloatCol [Fin (1 / 2)]), (''area'', ObjCol [None])]\<rparr>)"
proof -
  from backend_excludes_missing[OF same_length_label_frame coerce_label_frame, of None None,
      THEN conjunct1]
  have "process_dataframe example_pandas label_frame =
     Inr ([RemovedInvalidCoordinates 1, RemovedInvalidTimestamps 1],
          [(''class'', ObjCol [Some ''ped'']),
           (''time'', ObjCol [Some ''2024-01-01 00:00:00'']),
           (''id'', ObjCol [Some ''a1'']), (''x'', FloatCol [Fin 1]),
           (''y'', FloatCol [Fin 2]), (''heading'', FloatCol [NaN]),
           (''vest'', IntCol [1]), (''speed'', FloatCol [Fin (1 / 2)]),
           (''t'', TimeCol [Some 1704067200000000000]),
           (''area'', ObjCol [None])])"
    by (simp add: drop_invalid_def dropna_def keep_def getcol_def nrows_def Let_def)
  with same_length_label_frame backend_label_frame show ?thesis by blast
qed

text \<open>
  C5, as the claim states it, fails: in the PostgreSQL script a row whose \<^verbatim>\<open>x\<close> is no
  number raises ValueError in \<^verbatim>\<open>float\<close> and the run ends with exit status 1, and in
  the backend script a missing value in a numeric timestamp column raises in
  \<^verbatim>\<open>astype('int64')\<close> and the run ends with exit status 1.
\<close>

theorem row_invalidity_fatal_counterexample:
  "load_csv_data decimal_lib [three_rows ! 0, bad_x_row] = ([], Inl ValueError) \<and>
   main_pg decimal_lib bad_x_run =
     \<lparr>exit_status = 1, connected_to = Some ''postgres://env/db'', table_after = Some []\<rparr> \<and>
   main_backend example_pandas (Inr nan_time_frame) None = (1, None)"
proof -
  have "load_csv_data decimal_lib [three_rows ! 0, bad_x_row] = ([], Inl ValueError)"
    by code_simp
  with pg_bad_x_run backend_nan_time_frame show ?thesis by blast
qed

text \<open>
  C5, amended. In the backend script, on a frame whose timestamp column is text and
  whose header has the required columns, \<^verbatim>\<open>process_dataframe\<close> does not raise,
  whatever the values are: a row whose \<^verbatim>\<open>x\<close> or \<^verbatim>\<open>y\<close> is missing or no number, or
  whose timestamp does not parse, is dropped; the two messages carry the numbers of
  rows dropped for each reason, and the rows kept and the rows counted add up to the
  rows read.
\<close>

theorem backend_recovers_invalid_rows:
  assumes "same_length df" and "infer_timestamp_col df = Inr c" and "getcol df c = ObjCol vs"
    and "set [''id'', ''class'', ''x'', ''y'']
           \<subseteq> set (columns (rename_columns [''class_name'', ''label'', ''type''] df))"
  shows "\<exists>cf. coerce_frame P df = Inr cf \<and>
           process_dataframe P df =
             Inr ((if invalid_coordinates cf \<noteq> 0
                   then [RemovedInvalidCoordinates (invalid_coordinates cf)] else []) @
                  (if invalid_timestamps cf \<noteq> 0
                   then [RemovedInvalidTimestamps (invalid_timestamps cf)] else []),
                  dropna [''x'', ''y'', ''t''] cf) \<and>
           nrows (dropna [''x'', ''y'', ''t''] cf) + invalid_coordinates cf + invalid_timestamps cf
             = nrows df"
proof -
  let ?cf = "clean P (rename_columns [''class_name'', ''label'', ''type'']
                  (setcol df ''t'' (to_datetime_coerce P vs)))"
  have c: "coerce_frame P df = Inr ?cf"
    by (rule text_timestamp_coerce[OF assms(2,3,4)])
  from coerce_frame_wf[OF assms(1) c] have wf: "same_length ?cf" and nr: "nrows ?cf = nrows df"
    and cols: "''x'' \<in> set (columns ?cf)" "''y'' \<in> set (columns ?cf)" "''t'' \<in> set (columns ?cf)"
    by auto
  have p: "process_dataframe P df =
             Inr ((if invalid_coordinates ?cf \<noteq> 0
                   then [RemovedInvalidCoordinates (invalid_coordinates ?cf)] else []) @
                  (if invalid_timestamps ?cf \<noteq> 0
                   then [RemovedInvalidTimestamps (invalid_timestamps ?cf)] else []),
                  dropna [''x'', ''y'', ''t''] ?cf)"
    unfolding process_dataframe_result[OF assms(1) c] drop_invalid_log[OF wf cols]
      invalid_coordinates_def invalid_timestamps_def ..
  have n: "nrows (dropna [''x'', ''y'', ''t''] ?cf) + invalid_coordinates ?cf + invalid_timestamps ?cf
             = nrows df"
    using drop_invalid_total[OF wf cols] nr by simp
  show ?thesis
    by (rule exI[of _ ?cf]) (intro conjI c p n)
qed

theorem backend_recovers_invalid_rows_witness:
  "same_length label_frame \<and> infer_timestamp_col label_frame = Inr ''time'' \<and>
   getcol label_frame ''time'' =
     ObjCol [Some ''2024-01-01 00:00:00'', Some ''2024-01-01 00:00:01'', Some ''not-a-date''] \<and>
   (\<exists>cf. coerce_frame example_pandas label_frame = Inr cf \<and>
      process_dataframe example_pandas label_frame =
        Inr ([RemovedInvalidCoordinates 1, RemovedInvalidTimestamps 1], dropna [''x'', ''y'', ''t''] cf) \<and>
      nrows (dropna [''x'', ''y'', ''t''] cf) + 1 + 1 = 3)"
proof -
  have i: "infer_timestamp_col label_frame = Inr ''time''"
    by (simp add: infer_timestamp_col_def label_frame_def columns_def)
  have g: "getcol label_frame ''time'' =
     ObjCol [Some ''2024-01-01 00:00:00'', Some ''2024-01-01 00:00:01'', Some ''not-a-date'']"
    by (simp add: getcol_def label_frame_def)
  have h: "set [''id'', ''class'', ''x'', ''y'']
           \<subseteq> set (columns (rename_columns [''class_name'', ''label'', ''type''] label_frame))"
    unfolding columns_rename by (simp add: label_frame_def columns_def lower_names)
  from backend_recovers_invalid_rows[OF same_length_label_frame i g h, of example_pandas]
  obtain cf where cf: "coerce_frame example_pandas label_frame = Inr cf"
    and p: "process_dataframe example_pandas label_frame =
             Inr ((if invalid_coordinates cf \<noteq> 0
                   then [RemovedInvalidCoordinates (invalid_coordinates cf)] else []) @
                  (if invalid_timestamps cf \<noteq> 0
                   then [RemovedInvalidTimestamps (invalid_timestamps cf)] else []),
                  dropna [''x'', ''y'', ''t''] cf)"
    and n: "nrows (dropna [''x'', ''y'', ''t''] cf) + invalid_coordinates cf + invalid_timestamps cf
             = nrows label_frame"
    by blast
  from cf coerce_label_frame have e: "cf =
         [(''class'', ObjCol [Some ''ped'', Some ''veh'', Some ''ped'']),
          (''time'', ObjCol [Some ''2024-01-01 00:00:00'', Some ''2024-01-01 00:00:01'', Some ''not-a-date'']),
          (''id'', ObjCol [Some ''a1'', Some ''a2'', Some ''a3'']),
          (''x'', FloatCol [Fin 1, NaN, Fin 4]),
          (''y'', FloatCol [Fin 2, Fin 3, Fin 5]),
          (''heading'', FloatCol [NaN, Fin 90, NaN]),
          (''vest'', IntCol [1, 0, 1]),
          (''speed'', FloatCol [Fin (1 / 2), NaN, Fin (1 / 2)]),
          (''t'', TimeCol [Some 1704067200000000000, Some 1704067201000000000, None]),
          (''area'', ObjCol [None, None, None])]" by simp
  have ic: "invalid_coordinates cf = 1" and it: "invalid_timestamps cf = 1"
    unfolding e by (simp_all add: invalid_coordinates_def invalid_timestamps_def getcol_def nrows_def)
  have nl: "nrows label_frame = 3" by (simp add: label_frame_def nrows_def)
  from cf p n have "coerce_frame example_pandas label_frame = Inr cf \<and>
      process_dataframe example_pandas label_frame =
        Inr ([RemovedInvalidCoordinates 1, RemovedInvalidTimestamps 1], dropna [''x'', ''y'', ''t''] cf) \<and>
      nrows (dropna [''x'', ''y'', ''t''] cf) + 1 + 1 = 3"
    unfolding ic it nl by simp
  with same_length_label_frame i g show ?thesis by blast
qed

text \<open>
  C7. Both SQLite scripts replace the table: running a script again on the same input,
  on the database the first run left, gives the same result and the same database, so
  the same number of rows, the same number of distinct classes and the same earliest
  and latest timestamp.
\<close>

theorem replace_idempotent:
  "main_backend P csv (snd (main_backend P csv db)) = main_backend P csv db \<and>
   row_count (snd (main_backend P csv (snd (main_backend P csv db)))) = row_count (snd (main_backend P csv db)) \<and>
   class_count (snd (main_backend P csv (snd (main_backend P csv db)))) = class_count (snd (main_backend P csv db)) \<and>
   min_t (snd (main_backend P csv (snd (main_backend P csv db)))) = min_t (snd (main_backend P csv db)) \<and>
   max_t (snd (main_backend P csv (snd (main_backend P csv db)))) = max_t (snd (main_backend P csv db)) \<and>
   main_minimal P csv (snd (main_minimal P csv db)) = main_minimal P csv db \<and>
   row_count (snd (main_minimal P csv (snd (main_minimal P csv db)))) = row_count (snd (main_minimal P csv db)) \<and>
   class_count (snd (main_minimal P csv (snd (main_minimal P csv db)))) = class_count (snd (main_minimal P csv db)) \<and>
   min_t (snd (main_minimal P csv (snd (main_minimal P csv db)))) = min_t (snd (main_minimal P csv db)) \<and>
   max_t (snd (main_minimal P csv (snd (main_minimal P csv db)))) = max_t (snd (main_minimal P csv db))"
  by (simp only: main_backend_again main_minimal_again)

theorem replace_idempotent_witness:
  "main_backend example_pandas (Inr type_frame)
     (snd (main_backend example_pandas (Inr type_frame) None)) =
     (0, Some \<lparr>primary_key = [], indexes = [],
         frame =
           [(''id'', ObjCol [Some ''a1'', Some ''a1'']),
            (''class'', ObjCol [Some ''ped'', Some ''ped'']),
            (''t'', TimeCol [Some 1700000000000000000, Some 1700000000000000000]),
            (''x'', FloatCol [Fin 1, Fin 1]),
            (''y'', FloatCol [Fin 2, Fin 2]),
            (''heading'', FloatCol [NaN, NaN]), (''vest'', IntCol [1, 1]),
            (''speed'', FloatCol [Fin (1 / 2), Fin (1 / 2)]),
            (''area'', ObjCol [None, None])]\<rparr>) \<and>
   row_count (snd (main_backend example_pandas (Inr type_frame)
     (snd (main_backend example_pandas (Inr type_frame) None)))) = 2 \<and>
   class_count (snd (main_backend example_pandas (Inr type_frame)
     (snd (main_backend example_pandas (Inr type_frame) None)))) = 1 \<and>
   min_t (snd (main_backend example_pandas (Inr type_frame)
     (snd (main_backend example_pandas (Inr type_frame) None)))) = Some 1700000000000000000 \<and>
   fst (main_minimal example_pandas (Inr label_frame)
     (snd (main_minimal example_pandas (Inr label_frame) None))) = None \<and>
   row_count (snd (main_minimal example_pandas (Inr label_frame)
     (snd (main_minimal example_pandas (Inr label_frame) None)))) = 3"
proof -
  have b: "main_backend example_pandas (Inr type_frame)
     (snd (main_backend example_pandas (Inr type_frame) None)) =
       main_backend example_pandas (Inr type_frame) None"
    and m: "main_minimal example_pandas (Inr label_frame)
     (snd (main_minimal example_pandas (Inr label_frame) None)) =
       main_minimal example_pandas (Inr label_frame) None"
    using replace_idempotent[of example_pandas "Inr type_frame" None]
      replace_idempotent[of example_pandas "Inr label_frame" None] by blast+
  show ?thesis
    apply (simp only: b m)
    apply (simp only: backend_type_frame minimal_label_frame fst_conv snd_conv)
    apply (simp add: row_count_def class_count_def min_t_def instants_def getcol_def nrows_def)
    done
qed

end
